theory Spec2Isabelle
  imports Main
begin

section \<open>Stream and index layer of the Kaldi data handler\<close>

text \<open>
  The development embeds \<^verbatim>\<open>data_handler.py\<close>: the stream source
  (\<^verbatim>\<open>pipe_fopen\<close>, \<^verbatim>\<open>_fopen\<close>), the index parser
  (\<^verbatim>\<open>parse_scps\<close>), the random-access readers (\<^verbatim>\<open>Reader\<close>,
  \<^verbatim>\<open>ScriptReader\<close>) and the archive writer (\<^verbatim>\<open>Writer\<close>,
  \<^verbatim>\<open>ArchiveWriter\<close>).

  Python text is modelled as \<^typ>\<open>string\<close>, one \<^typ>\<open>char\<close> per code point below 256;
  bytes are modelled as \<^typ>\<open>string\<close> too, one \<^typ>\<open>char\<close> per byte. A leading
  underscore of a Python name is dropped (\<^verbatim>\<open>_fopen\<close> is \<open>fopen\<close>).
\<close>

subsection \<open>Python strings\<close>

text \<open>
  \<^verbatim>\<open>str.isspace\<close> on the code points below 256: the control characters 9 to 13 and
  28 to 31, the space, NEL (133) and the no-break space (160).
\<close>

definition isspace :: "char \<Rightarrow> bool" where
  "isspace c = (let n = (of_char c :: nat)
                in (9 \<le> n \<and> n \<le> 13) \<or> (28 \<le> n \<and> n \<le> 32) \<or> n = 133 \<or> n = 160)"

text \<open>\<^verbatim>\<open>s.strip()\<close>: leading and trailing whitespace removed.\<close>

definition py_strip :: "string \<Rightarrow> string" where
  "py_strip s = rev (dropWhile isspace (rev (dropWhile isspace s)))"

text \<open>
  \<^verbatim>\<open>s.split()\<close>: the maximal runs of non-whitespace characters. \<open>split_aux cur s\<close>
  scans \<open>s\<close> with the token \<open>cur\<close> read so far.
\<close>

fun split_aux :: "string \<Rightarrow> string \<Rightarrow> string list" where
  "split_aux cur [] = (if cur = [] then [] else [cur])"
| "split_aux cur (c # cs) =
     (if isspace c then (if cur = [] then split_aux [] cs else cur # split_aux [] cs)
      else split_aux (cur @ [c]) cs)"

definition py_split :: "string \<Rightarrow> string list" where
  "py_split s = split_aux [] s"

text \<open>
  \<^verbatim>\<open>s.split(sep)\<close> for a one-character separator: every occurrence splits, empty
  pieces are kept, and the result is never empty. \<^verbatim>\<open>sep.join(xs)\<close> is its inverse.
\<close>

fun split_on_aux :: "char \<Rightarrow> string \<Rightarrow> string \<Rightarrow> string list" where
  "split_on_aux sep cur [] = [cur]"
| "split_on_aux sep cur (c # cs) =
     (if c = sep then cur # split_on_aux sep [] cs else split_on_aux sep (cur @ [c]) cs)"

definition split_on :: "char \<Rightarrow> string \<Rightarrow> string list" where
  "split_on sep s = split_on_aux sep [] s"

fun join_with :: "string \<Rightarrow> string list \<Rightarrow> string" where
  "join_with sep [] = []"
| "join_with sep [x] = x"
| "join_with sep (x # y # ys) = x @ sep @ join_with sep (y # ys)"

text \<open>The format \<^verbatim>\<open>{:d}\<close> of an integer: decimal digits, a minus sign when negative.\<close>

definition digit_char :: "nat \<Rightarrow> char" where
  "digit_char d = char_of (48 + d)"

fun str_nat :: "nat \<Rightarrow> string" where
  "str_nat n = (if n < 10 then [digit_char n] else str_nat (n div 10) @ [digit_char (n mod 10)])"

declare str_nat.simps [simp del]

definition str_int :: "int \<Rightarrow> string" where
  "str_int i = (if i < 0 then CHR ''-'' # str_nat (nat (- i)) else str_nat (nat i))"

text \<open>
  \<^verbatim>\<open>int(s)\<close> in base 10: surrounding whitespace is ignored, one sign is allowed, and
  the digits may be grouped by single underscores. Below code point 256 the decimal
  digits are the ASCII ones. The interpreter's limit on the number of digits of a
  literal is not modelled.
\<close>

definition is_digit :: "char \<Rightarrow> bool" where
  "is_digit c = (48 \<le> (of_char c :: nat) \<and> (of_char c :: nat) \<le> 57)"

definition digit_val :: "char \<Rightarrow> nat" where
  "digit_val c = of_char c - 48"

fun int_digits_ok :: "string \<Rightarrow> bool" where
  "int_digits_ok [] = False"
| "int_digits_ok [c] = is_digit c"
| "int_digits_ok (c # d # cs) =
     (is_digit c \<and> (if d = CHR ''_'' then int_digits_ok cs else int_digits_ok (d # cs)))"

definition digits_value :: "string \<Rightarrow> nat" where
  "digits_value s = foldl (\<lambda>a c. 10 * a + digit_val c) 0 (filter (\<lambda>c. c \<noteq> CHR ''_'') s)"

definition py_int_unsigned :: "string \<Rightarrow> nat option" where
  "py_int_unsigned s = (if int_digits_ok s then Some (digits_value s) else None)"

subsection \<open>Exceptions\<close>

text \<open>
  Exceptions raised by the interpreter or its library (not by a \<^verbatim>\<open>raise\<close> of the
  file) carry the offending value instead of the library's message.
\<close>

datatype builtin_error =
    NoSuchFile string          \<comment> \<open>\<^verbatim>\<open>open(path, 'rb')\<close> on a missing file\<close>
  | InvalidIntLiteral string   \<comment> \<open>\<^verbatim>\<open>int(s)\<close> on a string that is no integer literal\<close>
  | NotIterable                \<comment> \<open>iterating \<^verbatim>\<open>None\<close>\<close>
  | NegativeSeek int           \<comment> \<open>\<^verbatim>\<open>f.seek\<close> to a negative position\<close>
  | MissingDictKey string      \<comment> \<open>subscript of a dict at an absent key\<close>
  | UnboundLocal string        \<comment> \<open>a local variable read before assignment\<close>
  | NoneAttribute              \<comment> \<open>a method called on \<^verbatim>\<open>None\<close>\<close>
  | IllegalSeek                \<comment> \<open>\<^verbatim>\<open>tell\<close> on a stream that is not a regular file\<close>
  | Unsupported                \<comment> \<open>reading a stream opened for writing, or writing one opened for reading\<close>
  | DecodeError string         \<comment> \<open>\<^verbatim>\<open>bytes.decode\<close> on bytes that are no text\<close>
  | NotSubscriptable           \<comment> \<open>subscript of \<^verbatim>\<open>None\<close>\<close>
  | StringIndex                \<comment> \<open>subscript of the empty string\<close>
  | KeyboardInterrupt          \<comment> \<open>raised in the main thread after \<^verbatim>\<open>_thread.interrupt_main()\<close>\<close>
  | NeverReturns               \<comment> \<open>no exception: the call blocks for ever\<close>

datatype error =
    RuntimeError string
  | ValueError string
  | KeyError string
  | IndexError string
  | FileNotFoundError string
  | NotImplementedError
  | Builtin builtin_error

text \<open>\<^verbatim>\<open>int(s)\<close>, with the \<^verbatim>\<open>ValueError\<close> it raises on anything else.\<close>

definition py_int :: "string \<Rightarrow> error + int" where
  "py_int s =
     (let t = py_strip s;
          neg = (t \<noteq> [] \<and> hd t = CHR ''-'');
          body = (if t \<noteq> [] \<and> (hd t = CHR ''-'' \<or> hd t = CHR ''+'') then tl t else t)
      in case py_int_unsigned body of
           None \<Rightarrow> Inl (Builtin (InvalidIntLiteral s))
         | Some n \<Rightarrow> Inr (if neg then - int n else int n))"

subsection \<open>The environment\<close>

text \<open>
  The operating system as the file sees it. \<open>resolve\<close> maps a path to the identity of
  the file it names, \<open>files\<close> holds the content of each existing file, \<open>abspath\<close>
  is \<^verbatim>\<open>os.path.abspath\<close>, \<open>decode\<close> is \<^verbatim>\<open>bytes.decode\<close>.
  \<open>proc_status\<close> is the exit status of a shell command, \<open>proc_stdout\<close> the lines
  of bytes it prints, \<open>pipe_buffer\<close> the number of bytes a pipe holds before its
  writer blocks, \<open>stdin_lines\<close> the lines standard input holds. The remaining
  fields log effects: the commands started with \<^verbatim>\<open>subprocess.Popen\<close>, the waiter
  threads started, the warnings issued, the calls of \<^verbatim>\<open>_thread.interrupt_main\<close>, what
  was written to standard output and the streams closed.
\<close>

datatype handle =
    Stdout_buffer | Stdout | Stdin_buffer | Stdin
  | PipeStdout string          \<comment> \<open>\<^verbatim>\<open>p.stdout\<close> of the process started for a command\<close>
  | File string string         \<comment> \<open>\<^verbatim>\<open>open(fname, mode)\<close>\<close>

record world =
  resolve :: "string \<Rightarrow> string"
  abspath :: "string \<Rightarrow> string"
  decode :: "string \<Rightarrow> string option"
  files :: "string \<rightharpoonup> string"
  stdin_lines :: "string list"
  proc_stdout :: "string \<Rightarrow> string list"
  proc_status :: "string \<Rightarrow> int"
  pipe_buffer :: nat
  spawned :: "string list"
  monitors :: "string list"
  warnings :: "string list"
  interrupts :: nat
  stdout_data :: string
  closed :: "handle list"

subsection \<open>Stream source\<close>

definition warn :: "string \<Rightarrow> world \<Rightarrow> world" where
  "warn msg w = w\<lparr>warnings := warnings w @ [msg]\<rparr>"

text \<open>
  \<^verbatim>\<open>background_command_waiter\<close>, run in the calling thread, which is taken to be the
  main thread. \<^verbatim>\<open>p.wait()\<close> comes first, while nothing reads the pipe: a command that
  prints more than the pipe holds blocks on its output and never exits, so the call
  never returns. Otherwise a nonzero status is warned about and
  \<^verbatim>\<open>_thread.interrupt_main()\<close> is called, which raises \<^verbatim>\<open>KeyboardInterrupt\<close> in the
  calling thread before the waiter returns to its caller.
\<close>

definition pipe_blocks :: "world \<Rightarrow> string \<Rightarrow> bool" where
  "pipe_blocks w command = (pipe_buffer w < length (concat (proc_stdout w command)))"

definition background_command_waiter :: "string \<Rightarrow> world \<Rightarrow> (error + unit) \<times> world" where
  "background_command_waiter command w =
     (if pipe_blocks w command then (Inl (Builtin NeverReturns), w)
      else if proc_status w command \<noteq> 0 then
        (let w1 = warn (''Command \"'' @ command @ ''\" exited with status ''
                          @ str_int (proc_status w command)) w
         in (Inl (Builtin KeyboardInterrupt), w1\<lparr>interrupts := interrupts w1 + 1\<rparr>))
      else (Inr (), w))"

text \<open>
  \<^verbatim>\<open>pipe_fopen\<close>. With \<open>background\<close> the waiter is handed to a daemon thread, which
  the model only records in \<open>monitors\<close>; what that thread does later is outside the
  model. Without it the waiter runs before \<^verbatim>\<open>return p.stdout\<close>, which is reached only
  when the waiter returns.
\<close>

definition pipe_fopen :: "string \<Rightarrow> string \<Rightarrow> bool \<Rightarrow> world \<Rightarrow> (error + handle) \<times> world" where
  "pipe_fopen command mode background w =
     (if mode \<notin> set [''rb'', ''r''] then
        (Inl (RuntimeError ''Now only support input from pipe''), w)
      else
        (let w1 = w\<lparr>spawned := spawned w @ [command]\<rparr>
         in if background then
              (Inr (PipeStdout command), w1\<lparr>monitors := monitors w1 @ [command]\<rparr>)
            else
              (case background_command_waiter command w1 of
                 (Inl e, w2) \<Rightarrow> (Inl e, w2)
               | (Inr _, w2) \<Rightarrow> (Inr (PipeStdout command), w2))))"

definition path_exists :: "world \<Rightarrow> string \<Rightarrow> bool" where
  "path_exists w fname = (files w (resolve w fname) \<noteq> None)"

text \<open>
  \<^verbatim>\<open>open(fname, mode)\<close> of a regular file: a write mode creates or truncates it. That
  the directory is missing or not writable is not modelled.
\<close>

definition open_file :: "string \<Rightarrow> string \<Rightarrow> world \<Rightarrow> handle \<times> world" where
  "open_file fname mode w =
     (File fname mode,
      if mode \<in> set [''w'', ''wb''] then w\<lparr>files := (files w)(resolve w fname \<mapsto> [])\<rparr> else w)"

text \<open>\<^verbatim>\<open>_fopen\<close>. The address is optional: \<^verbatim>\<open>None\<close> and the empty string both are "not fname".\<close>

definition fopen :: "string option \<Rightarrow> string \<Rightarrow> world \<Rightarrow> (error + handle option) \<times> world" where
  "fopen fname_opt mode w =
     (if mode \<notin> set [''w'', ''r'', ''wb'', ''rb''] then
        (Inl (ValueError (''Unknown open mode: '' @ mode)), w)
      else case fname_opt of
        None \<Rightarrow> (Inr None, w)
      | Some fname \<Rightarrow>
          if fname = [] then (Inr None, w)
          else if fname = ''-'' then
            (if mode \<in> set [''w'', ''wb''] then
               (Inr (Some (if mode = ''wb'' then Stdout_buffer else Stdout)), w)
             else (Inr (Some (if mode = ''rb'' then Stdin_buffer else Stdin)), w))
          else if last fname = CHR ''|'' then
            (case pipe_fopen (butlast fname) mode (mode = ''rb'') w of
               (Inl e, w') \<Rightarrow> (Inl e, w')
             | (Inr h, w') \<Rightarrow> (Inr (Some h), w'))
          else if mode \<in> set [''r'', ''rb''] \<and> \<not> path_exists w fname then
            (Inl (FileNotFoundError (''Could not find common file: '' @ fname)), w)
          else (case open_file fname mode w of (h, w') \<Rightarrow> (Inr (Some h), w')))"

text \<open>
  \<^verbatim>\<open>_fclose\<close>: only a regular file is closed. The test \<^verbatim>\<open>fname[-1] != "|"\<close> is
  reached only when the stream is not \<^verbatim>\<open>None\<close>; it raises when the address is
  \<^verbatim>\<open>None\<close> or empty.
\<close>

definition fclose :: "string option \<Rightarrow> handle option \<Rightarrow> world \<Rightarrow> error option \<times> world" where
  "fclose fname_opt fd w =
     (if fname_opt = Some ''-'' then (None, w)
      else case fd of
        None \<Rightarrow> (None, w)
      | Some h \<Rightarrow>
          (case fname_opt of
             None \<Rightarrow> (Some (Builtin NotSubscriptable), w)
           | Some fname \<Rightarrow>
               if fname = [] then (Some (Builtin StringIndex), w)
               else if last fname \<noteq> CHR ''|'' then (None, w\<lparr>closed := closed w @ [h]\<rparr>)
               else (None, w)))"

subsection \<open>Reading and writing a stream\<close>

text \<open>
  Iterating a text file yields its lines with universal newlines: a line ends at
  \<^verbatim>\<open>\n\<close>, \<^verbatim>\<open>\r\n\<close> or \<^verbatim>\<open>\r\<close>, each read as \<^verbatim>\<open>\n\<close>; the last line may have no
  terminator.
\<close>

fun text_lines_aux :: "string \<Rightarrow> string \<Rightarrow> string list" where
  "text_lines_aux cur [] = (if cur = [] then [] else [cur])"
| "text_lines_aux cur [c] =
     (if c = CHR 0x0A \<or> c = CHR 0x0D then [cur @ [CHR 0x0A]] else [cur @ [c]])"
| "text_lines_aux cur (c # d # cs) =
     (if c = CHR 0x0A then (cur @ [CHR 0x0A]) # text_lines_aux [] (d # cs)
      else if c = CHR 0x0D then
        (if d = CHR 0x0A then (cur @ [CHR 0x0A]) # text_lines_aux [] cs
         else (cur @ [CHR 0x0A]) # text_lines_aux [] (d # cs))
      else text_lines_aux (cur @ [c]) (d # cs))"

definition text_lines :: "string \<Rightarrow> string list" where
  "text_lines s = text_lines_aux [] s"

text \<open>Iterating a binary file yields its lines of bytes: a line ends at \<^verbatim>\<open>\n\<close> only.\<close>

fun bytes_lines_aux :: "string \<Rightarrow> string \<Rightarrow> string list" where
  "bytes_lines_aux cur [] = (if cur = [] then [] else [cur])"
| "bytes_lines_aux cur (c # cs) =
     (if c = CHR 0x0A then (cur @ [c]) # bytes_lines_aux [] cs
      else bytes_lines_aux (cur @ [c]) cs)"

definition bytes_lines :: "string \<Rightarrow> string list" where
  "bytes_lines s = bytes_lines_aux [] s"

text \<open>
  What \<^verbatim>\<open>for raw_line in f\<close> yields: text lines from a file opened with \<^verbatim>\<open>"r"\<close> and
  from standard input, lines of bytes from a file opened with \<^verbatim>\<open>"rb"\<close>, from a pipe
  and from the binary standard input.
\<close>

datatype raw_line = StrLine string | BytesLine string

definition iter_lines :: "world \<Rightarrow> handle option \<Rightarrow> error + raw_line list" where
  "iter_lines w fd =
     (case fd of
        None \<Rightarrow> Inl (Builtin NotIterable)
      | Some Stdin \<Rightarrow> Inr (map StrLine (stdin_lines w))
      | Some Stdin_buffer \<Rightarrow> Inr (map BytesLine (stdin_lines w))
      | Some (PipeStdout command) \<Rightarrow> Inr (map BytesLine (proc_stdout w command))
      | Some (File fname mode) \<Rightarrow>
          (if mode \<in> set [''r'', ''rb''] then
             (case files w (resolve w fname) of
                None \<Rightarrow> Inl (Builtin (NoSuchFile fname))
              | Some content \<Rightarrow>
                  Inr (if mode = ''r'' then map StrLine (text_lines content)
                       else map BytesLine (bytes_lines content)))
           else Inl (Builtin Unsupported))
      | Some _ \<Rightarrow> Inl (Builtin Unsupported))"

text \<open>
  \<^verbatim>\<open>fd.write(data)\<close> and \<^verbatim>\<open>fd.tell()\<close>. Data written to a file is appended to its
  content at once: buffering is not modelled, and a file is assumed to be open through
  one handle at a time. A text stream writes \<^verbatim>\<open>\n\<close> as it is (the line separator of
  POSIX), and text is stored as written (its encoding is undone on reading).
\<close>

definition hwrite :: "handle option \<Rightarrow> string \<Rightarrow> world \<Rightarrow> (error + unit) \<times> world" where
  "hwrite fd data w =
     (case fd of
        None \<Rightarrow> (Inl (Builtin NoneAttribute), w)
      | Some Stdout \<Rightarrow> (Inr (), w\<lparr>stdout_data := stdout_data w @ data\<rparr>)
      | Some Stdout_buffer \<Rightarrow> (Inr (), w\<lparr>stdout_data := stdout_data w @ data\<rparr>)
      | Some (File fname mode) \<Rightarrow>
          (if mode \<in> set [''w'', ''wb''] then
             (Inr (), w\<lparr>files := (files w)(resolve w fname \<mapsto>
                          (case files w (resolve w fname) of None \<Rightarrow> [] | Some c \<Rightarrow> c) @ data)\<rparr>)
           else (Inl (Builtin Unsupported), w))
      | Some _ \<Rightarrow> (Inl (Builtin Unsupported), w))"

definition tell :: "handle option \<Rightarrow> world \<Rightarrow> error + nat" where
  "tell fd w =
     (case fd of
        None \<Rightarrow> Inl (Builtin NoneAttribute)
      | Some (File fname mode) \<Rightarrow>
          Inr (length (case files w (resolve w fname) of None \<Rightarrow> [] | Some c \<Rightarrow> c))
      | Some _ \<Rightarrow> Inl (Builtin IllegalSeek))"

subsection \<open>Index parser\<close>

text \<open>
  A Python dict keeps its keys in insertion order: it is an association list with
  distinct keys. Assigning at a present key replaces the value in place, at a new key
  appends.
\<close>

type_synonym 'a dict = "(string \<times> 'a) list"

definition dict_contains :: "'a dict \<Rightarrow> string \<Rightarrow> bool" where
  "dict_contains d k = (k \<in> set (map fst d))"

definition dict_get :: "'a dict \<Rightarrow> string \<Rightarrow> 'a option" where
  "dict_get d k = map_of d k"

definition dict_keys :: "'a dict \<Rightarrow> string list" where
  "dict_keys d = map fst d"

fun dict_set :: "'a dict \<Rightarrow> string \<Rightarrow> 'a \<Rightarrow> 'a dict" where
  "dict_set [] k v = [(k, v)]"
| "dict_set ((k', v') # d) k v = (if k' = k then (k, v) # d else (k', v') # dict_set d k v)"

text \<open>
  \<^verbatim>\<open>if type(raw_line) is bytes: raw_line = bytes.decode(raw_line)\<close>, with \<open>dec\<close> the
  interpreter's \<^verbatim>\<open>bytes.decode\<close>.
\<close>

definition decode_line :: "(string \<Rightarrow> string option) \<Rightarrow> raw_line \<Rightarrow> error + string" where
  "decode_line dec rl =
     (case rl of
        StrLine s \<Rightarrow> Inr s
      | BytesLine b \<Rightarrow>
          (case dec b of None \<Rightarrow> Inl (Builtin (DecodeError b)) | Some s \<Rightarrow> Inr s))"

text \<open>
  The loop of \<^verbatim>\<open>parse_scps\<close> over the lines still to read, with the dict built and
  the lines counted so far.
\<close>

fun parse_loop ::
  "(string \<Rightarrow> string option) \<Rightarrow> string \<Rightarrow> (string \<Rightarrow> error + 'a) \<Rightarrow> 'a dict \<Rightarrow> nat
     \<Rightarrow> raw_line list \<Rightarrow> error + 'a dict" where
  "parse_loop dec scp_path addr_processor scp_dict line [] = Inr scp_dict"
| "parse_loop dec scp_path addr_processor scp_dict line (rl # rest) =
     (case decode_line dec rl of
        Inl e \<Rightarrow> Inl e
      | Inr raw_line \<Rightarrow>
          (let scp_tokens = py_split (py_strip raw_line);
               line' = line + 1
           in if length scp_tokens \<noteq> 2 then
                Inl (RuntimeError (''Error format in line['' @ str_nat line' @ '']: '' @ raw_line))
              else
                (let key = scp_tokens ! 0; addr = scp_tokens ! 1
                 in if dict_contains scp_dict key then
                      Inl (ValueError (''Duplicate key '' @ [CHR 0x27] @ key @ [CHR 0x27]
                                         @ '' exists in '' @ scp_path))
                    else
                      (case addr_processor addr of
                         Inl e \<Rightarrow> Inl e
                       | Inr a \<Rightarrow>
                           parse_loop dec scp_path addr_processor (dict_set scp_dict key a)
                             line' rest))))"

text \<open>
  \<^verbatim>\<open>parse_scps\<close>: the index is opened with \<^verbatim>\<open>ext_open(scp_path, "r")\<close>, read, and
  closed on every way out of the \<^verbatim>\<open>with\<close> block.
\<close>

definition parse_scps ::
  "string \<Rightarrow> (string \<Rightarrow> error + 'a) \<Rightarrow> world \<Rightarrow> (error + 'a dict) \<times> world" where
  "parse_scps scp_path addr_processor w =
     (case fopen (Some scp_path) ''r'' w of
        (Inl e, w') \<Rightarrow> (Inl e, w')
      | (Inr f, w') \<Rightarrow>
          (let r = (case iter_lines w' f of
                      Inl e \<Rightarrow> Inl e
                    | Inr ls \<Rightarrow> parse_loop (decode w') scp_path addr_processor [] 0 ls)
           in case fclose (Some scp_path) f w' of
                (Some e, w'') \<Rightarrow> (Inl e, w'')
              | (None, w'') \<Rightarrow> (r, w'')))"

text \<open>
  The index input: the lines \<^verbatim>\<open>parse_scps\<close> reads from the stream it opens at
  \<open>scp_path\<close>. The tokens of a line are those of the decoded, stripped line, and its
  key is the first of them.
\<close>

definition index_input :: "string \<Rightarrow> world \<Rightarrow> error + raw_line list" where
  "index_input scp_path w =
     (case fopen (Some scp_path) ''r'' w of
        (Inl e, w') \<Rightarrow> Inl e
      | (Inr f, w') \<Rightarrow> iter_lines w' f)"

definition line_tokens :: "(string \<Rightarrow> string option) \<Rightarrow> raw_line \<Rightarrow> string list" where
  "line_tokens dec rl =
     (case decode_line dec rl of Inl e \<Rightarrow> [] | Inr raw_line \<Rightarrow> py_split (py_strip raw_line))"

definition line_key :: "(string \<Rightarrow> string option) \<Rightarrow> raw_line \<Rightarrow> string" where
  "line_key dec rl = (case line_tokens dec rl of [] \<Rightarrow> [] | key # _ \<Rightarrow> key)"

subsection \<open>Random-access reader\<close>

record 'a reader =
  index_dict :: "'a dict"
  index_keys :: "string list"

definition Reader_init ::
  "string \<Rightarrow> (string \<Rightarrow> error + 'a) \<Rightarrow> world \<Rightarrow> (error + 'a reader) \<times> world" where
  "Reader_init scp_path addr_processor w =
     (case parse_scps scp_path addr_processor w of
        (Inl e, w') \<Rightarrow> (Inl e, w')
      | (Inr d, w') \<Rightarrow> (Inr \<lparr>index_dict = d, index_keys = dict_keys d\<rparr>, w'))"

definition Reader_len :: "'a reader \<Rightarrow> nat" where
  "Reader_len self = length (index_dict self)"

definition Reader_contains :: "'a reader \<Rightarrow> string \<Rightarrow> bool" where
  "Reader_contains self key = dict_contains (index_dict self) key"

text \<open>\<^verbatim>\<open>Reader._load\<close> of the base class.\<close>

definition Reader_load :: "'a reader \<Rightarrow> string \<Rightarrow> error + 'p" where
  "Reader_load self key = Inl NotImplementedError"

text \<open>
  \<^verbatim>\<open>Reader.__iter__\<close>, run to its end: the pairs the generator yields and the exception
  that ends it, if a load raises. \<open>load\<close> is the \<^verbatim>\<open>_load\<close> of the reader's class.
  A method returns the reader as it leaves it.
\<close>

fun iter_keys :: "(string \<Rightarrow> error + 'p) \<Rightarrow> string list \<Rightarrow> (string \<times> 'p) list \<times> error option" where
  "iter_keys ld [] = ([], None)"
| "iter_keys ld (key # keys) =
     (case ld key of
        Inl e \<Rightarrow> ([], Some e)
      | Inr p \<Rightarrow> (case iter_keys ld keys of (ys, r) \<Rightarrow> ((key, p) # ys, r)))"

definition Reader_iter ::
  "('a reader \<Rightarrow> string \<Rightarrow> error + 'p) \<Rightarrow> 'a reader
     \<Rightarrow> ((string \<times> 'p) list \<times> error option) \<times> 'a reader" where
  "Reader_iter load self = (iter_keys (load self) (index_keys self), self)"

text \<open>
  \<^verbatim>\<open>Reader.__getitem__\<close>. A selector is an \<^verbatim>\<open>int\<close>, a \<^verbatim>\<open>str\<close>, or a value of another
  type, given by the text of its type.
\<close>

datatype selector = IntSel int | StrSel string | OtherSel string

definition getitem_key ::
  "('a reader \<Rightarrow> string \<Rightarrow> error + 'p) \<Rightarrow> 'a reader \<Rightarrow> string \<Rightarrow> (error + 'p) \<times> 'a reader" where
  "getitem_key load self index =
     (if \<not> dict_contains (index_dict self) index then
        (Inl (KeyError (''Missing utterance '' @ index @ ''!'')), self)
      else (load self index, self))"

definition Reader_getitem ::
  "('a reader \<Rightarrow> string \<Rightarrow> error + 'p) \<Rightarrow> 'a reader \<Rightarrow> selector \<Rightarrow> (error + 'p) \<times> 'a reader" where
  "Reader_getitem load self index =
     (case index of
        OtherSel ty \<Rightarrow> (Inl (IndexError (''Unsupported index type: '' @ ty)), self)
      | StrSel key \<Rightarrow> getitem_key load self key
      | IntSel i \<Rightarrow>
          (let num_utts = int (length (index_keys self))
           in if i \<ge> num_utts \<or> i < 0 then
                (Inl (KeyError (''Interger index out of range, '' @ str_int i @ '' vs ''
                                  @ str_int num_utts)), self)
              else getitem_key load self (index_keys self ! nat i)))"

subsection \<open>Script reader\<close>

text \<open>
  The payload codec \<^verbatim>\<open>iobase\<close> is not part of the file. The writing procedures are
  taken as the bytes they append, the reading procedures as functions of the bytes from
  the stream position on: \<open>expect_binary\<close> returns the bytes after the sentinel,
  \<open>read_general_mat\<close> the payload.
\<close>

record 'm codec =
  write_token :: "string \<Rightarrow> string"
  write_binary_symbol :: string
  write_common_mat :: "'m \<Rightarrow> string"
  expect_binary :: "string \<Rightarrow> error + string"
  read_general_mat :: "string \<Rightarrow> error + 'm"

definition addr_processor :: "string \<Rightarrow> error + (string \<times> int)" where
  "addr_processor addr =
     (let addr_token = split_on CHR '':'' addr
      in if length addr_token = 1 then Inl (ValueError ''Unsupported scripts address format'')
         else (case py_int (last addr_token) of
                 Inl e \<Rightarrow> Inl e
               | Inr offset \<Rightarrow> Inr (join_with '':'' (butlast addr_token), offset)))"

definition ScriptReader_init :: "string \<Rightarrow> world \<Rightarrow> (error + (string \<times> int) reader) \<times> world" where
  "ScriptReader_init ark_scp w = Reader_init ark_scp addr_processor w"

definition ScriptReader_load ::
  "'m codec \<Rightarrow> world \<Rightarrow> (string \<times> int) reader \<Rightarrow> string \<Rightarrow> error + 'm" where
  "ScriptReader_load io w self key =
     (case dict_get (index_dict self) key of
        None \<Rightarrow> Inl (Builtin (MissingDictKey key))
      | Some (path, offset) \<Rightarrow>
          (case files w (resolve w path) of
             None \<Rightarrow> Inl (Builtin (NoSuchFile path))
           | Some content \<Rightarrow>
               if offset < 0 then Inl (Builtin (NegativeSeek offset))
               else (case expect_binary io (drop (nat offset) content) of
                       Inl e \<Rightarrow> Inl e
                     | Inr rest \<Rightarrow> read_general_mat io rest)))"

subsection \<open>Archive writer\<close>

record writer_cfg =
  scp_path :: "string option"
  ark_path :: string

record writer = writer_cfg +
  ark_file :: "handle option"
  scp_file :: "handle option"

text \<open>\<^verbatim>\<open>Writer.__init__\<close>: a truthy \<^verbatim>\<open>scp_path\<close> is neither \<^verbatim>\<open>None\<close> nor empty.\<close>

definition Writer_init :: "string \<Rightarrow> string option \<Rightarrow> world \<Rightarrow> writer_cfg \<times> world" where
  "Writer_init ark scp w =
     (if ark = ''-'' \<and> scp \<noteq> None \<and> scp \<noteq> Some [] then
        (\<lparr>scp_path = None, ark_path = ark\<rparr>,
         warn ''Ignore .scp output discriptor cause dump archives to stdout'' w)
      else (\<lparr>scp_path = scp, ark_path = ark\<rparr>, w))"

text \<open>\<^verbatim>\<open>Writer.__enter__\<close> and \<^verbatim>\<open>Writer.__exit__\<close>.\<close>

definition Writer_enter :: "writer_cfg \<Rightarrow> world \<Rightarrow> (error + writer) \<times> world" where
  "Writer_enter self w =
     (case fopen (Some (ark_path self)) ''wb'' w of
        (Inl e, w1) \<Rightarrow> (Inl e, w1)
      | (Inr af, w1) \<Rightarrow>
          (case fopen (scp_path self) ''w'' w1 of
             (Inl e, w2) \<Rightarrow> (Inl e, w2)
           | (Inr sf, w2) \<Rightarrow>
               (Inr \<lparr>scp_path = scp_path self, ark_path = ark_path self,
                     ark_file = af, scp_file = sf\<rparr>, w2)))"

definition Writer_exit :: "writer \<Rightarrow> world \<Rightarrow> error option \<times> world" where
  "Writer_exit self w =
     (case fclose (Some (ark_path self)) (ark_file self) w of
        (Some e, w1) \<Rightarrow> (Some e, w1)
      | (None, w1) \<Rightarrow> fclose (scp_path self) (scp_file self) w1)"

text \<open>
  \<^verbatim>\<open>ArchiveWriter.write\<close>. The local \<^verbatim>\<open>offset\<close> is bound only when the archive is
  not standard output; reading it unbound raises.
\<close>

definition scp_entry :: "string \<Rightarrow> string \<Rightarrow> nat \<Rightarrow> string" where
  "scp_entry key path offset = key @ [CHR 0x09] @ path @ '':'' @ str_nat offset @ [CHR 0x0A]"

definition ArchiveWriter_write ::
  "'m codec \<Rightarrow> writer \<Rightarrow> string \<Rightarrow> 'm \<Rightarrow> world \<Rightarrow> (error + unit) \<times> world" where
  "ArchiveWriter_write io self key matrix w =
     (case hwrite (ark_file self) (write_token io key) w of
        (Inl e, w1) \<Rightarrow> (Inl e, w1)
      | (Inr _, w1) \<Rightarrow>
     (case (if ark_path self \<noteq> ''-''
            then (case tell (ark_file self) w1 of Inl e \<Rightarrow> Inl e | Inr n \<Rightarrow> Inr (Some n))
            else Inr None) of
        Inl e \<Rightarrow> (Inl e, w1)
      | Inr offset \<Rightarrow>
     (case hwrite (ark_file self) (write_binary_symbol io) w1 of
        (Inl e, w2) \<Rightarrow> (Inl e, w2)
      | (Inr _, w2) \<Rightarrow>
     (case hwrite (ark_file self) (write_common_mat io matrix) w2 of
        (Inl e, w3) \<Rightarrow> (Inl e, w3)
      | (Inr _, w3) \<Rightarrow>
     (case scp_file self of
        None \<Rightarrow> (Inr (), w3)
      | Some sf \<Rightarrow>
          (case offset of
             None \<Rightarrow> (Inl (Builtin (UnboundLocal ''offset'')), w3)
           | Some off \<Rightarrow>
               hwrite (Some sf) (scp_entry key (abspath w3 (ark_path self)) off) w3))))))"

text \<open>
  The use of the writer in \<^verbatim>\<open>test_archive_writer\<close>: a \<^verbatim>\<open>with\<close> block that writes
  the records in turn. An exception in the block still runs \<^verbatim>\<open>__exit__\<close>.
\<close>

fun write_all :: "'m codec \<Rightarrow> writer \<Rightarrow> (string \<times> 'm) list \<Rightarrow> world \<Rightarrow> (error + unit) \<times> world" where
  "write_all io self [] w = (Inr (), w)"
| "write_all io self ((key, matrix) # rest) w =
     (case ArchiveWriter_write io self key matrix w of
        (Inl e, w') \<Rightarrow> (Inl e, w')
      | (Inr _, w') \<Rightarrow> write_all io self rest w')"

definition write_archive ::
  "'m codec \<Rightarrow> string \<Rightarrow> string option \<Rightarrow> (string \<times> 'm) list \<Rightarrow> world
     \<Rightarrow> (error + unit) \<times> world" where
  "write_archive io ark scp recs w =
     (case Writer_init ark scp w of
        (cfg, w0) \<Rightarrow>
          (case Writer_enter cfg w0 of
             (Inl e, w1) \<Rightarrow> (Inl e, w1)
           | (Inr self, w1) \<Rightarrow>
               (case write_all io self recs w1 of
                  (r, w2) \<Rightarrow>
                    (case Writer_exit self w2 of
                       (Some e, w3) \<Rightarrow> (Inl e, w3)
                     | (None, w3) \<Rightarrow> (r, w3)))))"

subsection \<open>Writing an archive and reading it back\<close>

text \<open>
  The flow of \<^verbatim>\<open>test_archive_writer\<close>: the records are written with an index, a
  \<^verbatim>\<open>ScriptReader\<close> is built from the index, and a record is read back by its key.
\<close>

definition write_then_read ::
  "'m codec \<Rightarrow> string \<Rightarrow> string \<Rightarrow> (string \<times> 'm) list \<Rightarrow> world \<Rightarrow> string \<Rightarrow> error + 'm" where
  "write_then_read io ark scp recs w key =
     (case write_archive io ark (Some scp) recs w of
        (Inl e, w1) \<Rightarrow> Inl e
      | (Inr _, w1) \<Rightarrow>
          (case ScriptReader_init scp w1 of
             (Inl e, w2) \<Rightarrow> Inl e
           | (Inr self, w2) \<Rightarrow>
               fst (Reader_getitem (ScriptReader_load io w2) self (StrSel key))))"

text \<open>
  The codec is position-symmetric when reading undoes writing at any position: the
  sentinel check skips the sentinel written, and the payload reader returns the payload
  written, whatever follows.
\<close>

definition position_symmetric :: "'m codec \<Rightarrow> bool" where
  "position_symmetric io =
     ((\<forall>rest. expect_binary io (write_binary_symbol io @ rest) = Inr rest)
    \<and> (\<forall>m rest. read_general_mat io (write_common_mat io m @ rest) = Inr m))"

text \<open>
  A token is a non-empty string without whitespace. A plain path is an address that
  \<^verbatim>\<open>_fopen\<close> opens as a regular file.
\<close>

definition token_ok :: "string \<Rightarrow> bool" where
  "token_ok s = (s \<noteq> [] \<and> (\<forall>c \<in> set s. \<not> isspace c))"

definition plain_path :: "string \<Rightarrow> bool" where
  "plain_path p = (p \<noteq> [] \<and> p \<noteq> ''-'' \<and> last p \<noteq> CHR ''|'')"

text \<open>
  The bytes of one record in the archive, and the position of the sentinel of each
  record in an archive that starts at position \<open>base\<close>.
\<close>

definition frame :: "'m codec \<Rightarrow> string \<times> 'm \<Rightarrow> string" where
  "frame io r = write_token io (fst r) @ write_binary_symbol io @ write_common_mat io (snd r)"

fun record_offsets :: "'m codec \<Rightarrow> nat \<Rightarrow> (string \<times> 'm) list \<Rightarrow> nat list" where
  "record_offsets io base [] = []"
| "record_offsets io base (r # rs) =
     (base + length (write_token io (fst r)))
       # record_offsets io (base + length (frame io r)) rs"

text \<open>
  The environment in which the files \<open>ra\<close> and \<open>rs\<close> hold \<open>A\<close> and \<open>S\<close>, and the lines
  of the index that \<^verbatim>\<open>ArchiveWriter.write\<close> appends for the records.
\<close>

definition with_files :: "world \<Rightarrow> string \<Rightarrow> string \<Rightarrow> string \<Rightarrow> string \<Rightarrow> world" where
  "with_files w ra rs A S = w\<lparr>files := (files w)(ra \<mapsto> A, rs \<mapsto> S)\<rparr>"

definition index_lines :: "'m codec \<Rightarrow> string \<Rightarrow> nat \<Rightarrow> (string \<times> 'm) list \<Rightarrow> string list" where
  "index_lines io path base recs =
     map (\<lambda>(r, off). scp_entry (fst r) path off) (zip recs (record_offsets io base recs))"

definition index_entries ::
  "'m codec \<Rightarrow> string \<Rightarrow> nat \<Rightarrow> (string \<times> 'm) list \<Rightarrow> (string \<times> int) dict" where
  "index_entries io path base recs =
     map (\<lambda>(r, off). (fst r, (path, int off))) (zip recs (record_offsets io base recs))"

subsection \<open>A concrete environment and codec\<close>

text \<open>
  An environment with no file, whose working directory is \<^verbatim>\<open>/data\<close>, and a codec in
  the style of the archive format: the token followed by a space, the sentinel
  \<^verbatim>\<open>\0B\<close>, and as payload a list of bytes after its length in unary and a dot.
\<close>

definition norm_path :: "string \<Rightarrow> string" where
  "norm_path p = (if p \<noteq> [] \<and> hd p = CHR ''/'' then p else ''/data/'' @ p)"

definition world0 :: world where
  "world0 = \<lparr>resolve = norm_path, abspath = norm_path, decode = Some, files = Map.empty,
             stdin_lines = [], proc_stdout = (\<lambda>_. []), proc_status = (\<lambda>_. 0),
             pipe_buffer = 64, spawned = [], monitors = [], warnings = [], interrupts = 0,
             stdout_data = [], closed = []\<rparr>"

definition codec0 :: "string codec" where
  "codec0 = \<lparr>write_token = (\<lambda>key. key @ '' ''),
             write_binary_symbol = [CHR 0x00, CHR ''B''],
             write_common_mat = (\<lambda>m. replicate (length m) CHR ''x'' @ ''.'' @ m),
             expect_binary = (\<lambda>s. if take 2 s = [CHR 0x00, CHR ''B''] then Inr (drop 2 s)
                                   else Inl (RuntimeError ''Expected binary'')),
             read_general_mat = (\<lambda>s. let n = length (takeWhile (\<lambda>c. c = CHR ''x'') s)
                                      in if length s < 2 * n + 1
                                         then Inl (RuntimeError ''Unexpected end'')
                                         else Inr (take n (drop (n + 1) s)))\<rparr>"

text \<open>The same environment holding the given files, by absolute path.\<close>

definition world_with :: "(string \<times> string) list \<Rightarrow> world" where
  "world_with fs = world0\<lparr>files := map_of fs\<rparr>"

text \<open>
  An archive of two records written with \<open>codec0\<close>, its index, and the reader built
  from the index.
\<close>

definition ark_A :: string where
  "ark_A = ''k1 '' @ [CHR 0x00, CHR ''B''] @ ''xx.hi''
         @ ''k2 '' @ [CHR 0x00, CHR ''B''] @ ''xxx.abc''"

definition world_A :: world where
  "world_A = world_with [(''/data/a.scp'', ''k1 a.ark:3\<newline>k2 a.ark:13\<newline>''),
                         (''/data/a.ark'', ark_A)]"

definition reader_A :: "(string \<times> int) reader" where
  "reader_A = \<lparr>index_dict = [(''k1'', (''a.ark'', 3)), (''k2'', (''a.ark'', 13))],
               index_keys = [''k1'', ''k2'']\<rparr>"

section \<open>Properties\<close>

subsection \<open>Facts about strings\<close>

lemma digit_char_props:
  assumes "d < 10"
  shows "is_digit (digit_char d)" and "digit_val (digit_char d) = d"
  using assms by (simp_all add: is_digit_def digit_val_def digit_char_def)

lemma is_digit_plain:
  assumes "is_digit c"
  shows "\<not> isspace c" and "c \<noteq> CHR ''_''" and "c \<noteq> CHR ''-''" and "c \<noteq> CHR ''+''"
    and "c \<noteq> CHR '':''"
  using assms by (auto simp: is_digit_def isspace_def Let_def)

lemma str_nat_digits: "str_nat n \<noteq> [] \<and> (\<forall>c \<in> set (str_nat n). is_digit c)"
proof (induction n rule: str_nat.induct)
  case (1 n)
  show ?case
  proof (cases "n < 10")
    case True
    then show ?thesis by (simp add: str_nat.simps [of n] digit_char_props)
  next
    case False
    then show ?thesis using "1.IH" by (simp add: str_nat.simps [of n] digit_char_props)
  qed
qed

lemma int_digits_ok_digits: "s \<noteq> [] \<Longrightarrow> \<forall>c \<in> set s. is_digit c \<Longrightarrow> int_digits_ok s"
  by (induction s rule: int_digits_ok.induct) (auto simp: is_digit_plain)

lemma digits_value_snoc:
  "c \<noteq> CHR ''_'' \<Longrightarrow> digits_value (s @ [c]) = 10 * digits_value s + digit_val c"
  by (simp add: digits_value_def)

lemma digits_value_str_nat: "digits_value (str_nat n) = n"
proof (induction n rule: str_nat.induct)
  case (1 n)
  show ?case
  proof (cases "n < 10")
    case True
    then show ?thesis
      using digits_value_snoc [of "digit_char n" "[]"]
      by (simp add: str_nat.simps [of n] digit_char_props is_digit_plain digits_value_def)
  next
    case False
    have d: "digit_char (n mod 10) \<noteq> CHR ''_''"
      by (simp add: is_digit_plain digit_char_props)
    show ?thesis using False "1.IH" digits_value_snoc [OF d, of "str_nat (n div 10)"]
      by (simp add: str_nat.simps [of n] digit_char_props)
  qed
qed

lemma strip_plain:
  assumes "s \<noteq> []" and "\<not> isspace (hd s)" and "\<not> isspace (last s)"
      and "\<forall>c \<in> set ws. isspace c"
  shows "py_strip (s @ ws) = s"
proof -
  have a: "dropWhile isspace (s @ ws) = s @ ws"
    using assms(1,2) by (cases s) auto
  have b1: "dropWhile isspace (rev ws @ rev s) = dropWhile isspace (rev s)"
    using assms(4) by (intro dropWhile_append2) simp
  have b2: "dropWhile isspace (rev s) = rev s"
    using assms(1,3) by (cases s rule: rev_cases) auto
  have b: "dropWhile isspace (rev ws @ rev s) = rev s" using b1 b2 by simp
  show ?thesis using a b by (simp add: py_strip_def)
qed

lemma py_int_str_nat: "py_int (str_nat n) = Inr (int n)"
proof -
  have d: "str_nat n \<noteq> []" "\<forall>c \<in> set (str_nat n). is_digit c"
    using str_nat_digits by auto
  have h: "is_digit (hd (str_nat n))" and l: "is_digit (last (str_nat n))"
    using d by auto
  have s: "py_strip (str_nat n) = str_nat n"
    using strip_plain [OF d(1), of "[]"] h l by (simp add: is_digit_plain)
  have ok: "int_digits_ok (str_nat n)" by (rule int_digits_ok_digits [OF d])
  show ?thesis using s h ok d(1)
    by (auto simp: py_int_def py_int_unsigned_def Let_def digits_value_str_nat is_digit_plain)
qed

lemma split_aux_token:
  "\<forall>c \<in> set t. \<not> isspace c \<Longrightarrow> split_aux cur (t @ rest) = split_aux (cur @ t) rest"
  by (induction t arbitrary: cur) auto

lemma split_two_tokens:
  assumes "token_ok a" and "token_ok b" and "isspace sep"
  shows "py_split (a @ sep # b) = [a, b]"
proof -
  have "split_aux [] (a @ sep # b) = split_aux a (sep # b)"
    using split_aux_token [of a "[]" "sep # b"] assms(1) by (simp add: token_ok_def)
  also have "\<dots> = a # split_aux [] (b @ [])" using assms(1,3) by (simp add: token_ok_def)
  also have "split_aux [] (b @ []) = split_aux b []"
    using split_aux_token [of b "[]" "[]"] assms(2) by (simp add: token_ok_def)
  finally show ?thesis using assms(2) by (simp add: py_split_def token_ok_def)
qed

lemma split_on_aux_plain: "sep \<notin> set d \<Longrightarrow> split_on_aux sep cur d = [cur @ d]"
  by (induction d arbitrary: cur) auto

lemma split_on_aux_nonempty: "split_on_aux sep cur s \<noteq> []"
  by (induction s arbitrary: cur) auto

lemma split_on_aux_append:
  "split_on_aux sep cur (xs @ sep # d) = split_on_aux sep cur xs @ split_on_aux sep [] d"
  by (induction xs arbitrary: cur) auto

lemma join_split_on_aux: "join_with [sep] (split_on_aux sep cur xs) = cur @ xs"
proof (induction xs arbitrary: cur)
  case Nil
  then show ?case by simp
next
  case (Cons c xs)
  show ?case
  proof (cases "c = sep")
    case True
    obtain y ys where y: "split_on_aux sep [] xs = y # ys"
      using split_on_aux_nonempty [of sep "[]" xs] by (cases "split_on_aux sep [] xs") auto
    have "join_with [sep] (y # ys) = xs" using Cons.IH [of "[]"] y by simp
    then show ?thesis using True y by simp
  next
    case False
    then show ?thesis using Cons.IH [of "cur @ [c]"] by simp
  qed
qed

lemma addr_processor_entry: "addr_processor (path @ '':'' @ str_nat off) = Inr (path, int off)"
proof -
  have nc: "CHR '':'' \<notin> set (str_nat off)"
    using str_nat_digits [of off] is_digit_plain(5) by blast
  have sp: "split_on CHR '':'' (path @ '':'' @ str_nat off)
              = split_on_aux CHR '':'' [] path @ [str_nat off]"
    using split_on_aux_append [of "CHR '':''" "[]" path "str_nat off"]
      split_on_aux_plain [OF nc, of "[]"] by (simp add: split_on_def)
  have ne: "split_on_aux CHR '':'' [] path \<noteq> []" by (rule split_on_aux_nonempty)
  have len: "length (split_on CHR '':'' (path @ '':'' @ str_nat off)) \<noteq> 1"
    using sp ne by (cases "split_on_aux CHR '':'' [] path") auto
  have j: "join_with '':'' (split_on_aux CHR '':'' [] path) = path"
    using join_split_on_aux [of "CHR '':''" "[]" path] by simp
  show ?thesis using len sp j
    by (simp add: addr_processor_def Let_def py_int_str_nat)
qed

lemma addr_processor_entry_Cons:
  "addr_processor (path @ CHR '':'' # str_nat off) = Inr (path, int off)"
  using addr_processor_entry [of path off] by simp

lemma entry_tokens:
  assumes "token_ok key" and "\<forall>c \<in> set path. \<not> isspace c"
  shows "py_split (py_strip (scp_entry key path off)) = [key, path @ '':'' @ str_nat off]"
proof -
  let ?addr = "path @ '':'' @ str_nat off"
  have d: "str_nat off \<noteq> []" "\<forall>c \<in> set (str_nat off). \<not> isspace c"
    using str_nat_digits [of off] is_digit_plain(1) by auto
  have c: "\<not> isspace CHR '':''" by (simp add: isspace_def)
  have a: "token_ok ?addr" using assms(2) d c by (auto simp: token_ok_def)
  have body: "scp_entry key path off = (key @ CHR 0x09 # ?addr) @ [CHR 0x0A]"
    by (simp add: scp_entry_def)
  have h: "\<not> isspace (hd (key @ CHR 0x09 # ?addr))"
    using assms(1) by (cases key) (auto simp: token_ok_def)
  have l: "\<not> isspace (last (key @ CHR 0x09 # ?addr))"
    using d by simp
  have s: "py_strip (scp_entry key path off) = key @ CHR 0x09 # ?addr"
    unfolding body by (rule strip_plain) (use h l in \<open>auto simp: isspace_def\<close>)
  show ?thesis unfolding s
    by (rule split_two_tokens [OF assms(1) a]) (simp add: isspace_def)
qed

lemma text_lines_aux_line:
  "\<forall>c \<in> set body. c \<noteq> CHR 0x0A \<and> c \<noteq> CHR 0x0D \<Longrightarrow>
     text_lines_aux cur (body @ CHR 0x0A # rest) = (cur @ body @ [CHR 0x0A]) # text_lines_aux [] rest"
proof (induction body arbitrary: cur)
  case Nil
  then show ?case by (cases rest) auto
next
  case (Cons c body)
  obtain d cs where t: "body @ CHR 0x0A # rest = d # cs"
    by (cases "body @ CHR 0x0A # rest") auto
  have "text_lines_aux cur (c # body @ CHR 0x0A # rest)
          = text_lines_aux (cur @ [c]) (body @ CHR 0x0A # rest)"
    using Cons.prems by (simp add: t)
  then show ?case using Cons.IH [of "cur @ [c]"] Cons.prems by simp
qed

subsection \<open>Facts about the stream source\<close>

lemma waiter_fields:
  "decode (snd (background_command_waiter c w)) = decode w"
  "abspath (snd (background_command_waiter c w)) = abspath w"
  "resolve (snd (background_command_waiter c w)) = resolve w"
  "spawned (snd (background_command_waiter c w)) = spawned w"
  by (simp_all add: background_command_waiter_def warn_def Let_def)

lemma waiter_result:
  "fst (background_command_waiter c w)
     = (if pipe_blocks w c then Inl (Builtin NeverReturns)
        else if proc_status w c \<noteq> 0 then Inl (Builtin KeyboardInterrupt)
        else Inr ())"
  by (simp add: background_command_waiter_def Let_def)

lemma pipe_fopen_read:
  assumes "mode \<in> {''r'', ''rb''}"
  shows "decode (snd (pipe_fopen c mode b w)) = decode w"
    and "abspath (snd (pipe_fopen c mode b w)) = abspath w"
    and "resolve (snd (pipe_fopen c mode b w)) = resolve w"
    and "spawned (snd (pipe_fopen c mode b w)) = spawned w @ [c]"
    and "fst (pipe_fopen c mode b w)
           = (if b then Inr (PipeStdout c)
              else if pipe_blocks w c then Inl (Builtin NeverReturns)
              else if proc_status w c \<noteq> 0 then Inl (Builtin KeyboardInterrupt)
              else Inr (PipeStdout c))"
proof -
  let ?w1 = "w\<lparr>spawned := spawned w @ [c]\<rparr>"
  obtain r w2 where bw: "background_command_waiter c ?w1 = (r, w2)"
    by (cases "background_command_waiter c ?w1")
  have f: "decode w2 = decode w" "abspath w2 = abspath w" "resolve w2 = resolve w"
    "spawned w2 = spawned w @ [c]"
    using waiter_fields [of c ?w1] bw by simp_all
  have r: "r = (if pipe_blocks w c then Inl (Builtin NeverReturns)
                else if proc_status w c \<noteq> 0 then Inl (Builtin KeyboardInterrupt)
                else Inr ())"
    using waiter_result [of c ?w1] bw by (simp add: pipe_blocks_def)
  have m: "mode \<in> set [''rb'', ''r'']" using assms by auto
  have p: "pipe_fopen c mode b w
             = (if b then (Inr (PipeStdout c), ?w1\<lparr>monitors := monitors ?w1 @ [c]\<rparr>)
                else (case r of Inl e \<Rightarrow> (Inl e, w2) | Inr u \<Rightarrow> (Inr (PipeStdout c), w2)))"
    unfolding pipe_fopen_def Let_def bw using m by (simp split: sum.splits)
  show "decode (snd (pipe_fopen c mode b w)) = decode w"
    unfolding p using f by (cases r) simp_all
  show "abspath (snd (pipe_fopen c mode b w)) = abspath w"
    unfolding p using f by (cases r) simp_all
  show "resolve (snd (pipe_fopen c mode b w)) = resolve w"
    unfolding p using f by (cases r) simp_all
  show "spawned (snd (pipe_fopen c mode b w)) = spawned w @ [c]"
    unfolding p using f by (cases r) simp_all
  show "fst (pipe_fopen c mode b w)
          = (if b then Inr (PipeStdout c)
             else if pipe_blocks w c then Inl (Builtin NeverReturns)
             else if proc_status w c \<noteq> 0 then Inl (Builtin KeyboardInterrupt)
             else Inr (PipeStdout c))"
    unfolding p r by simp
qed

lemma pipe_fopen_write:
  "mode \<in> {''w'', ''wb''} \<Longrightarrow>
     pipe_fopen c mode b w = (Inl (RuntimeError ''Now only support input from pipe''), w)"
  by (auto simp: pipe_fopen_def)

text \<open>\<^verbatim>\<open>_fopen\<close> on an address that ends in the pipe marker.\<close>

lemma fopen_pipe:
  assumes "fname \<noteq> []" and "last fname = CHR ''|''"
      and "mode \<in> {''w'', ''r'', ''wb'', ''rb''}"
  shows "fopen (Some fname) mode w
           = (case pipe_fopen (butlast fname) mode (mode = ''rb'') w of
                (Inl e, w') \<Rightarrow> (Inl e, w')
              | (Inr h, w') \<Rightarrow> (Inr (Some h), w'))"
proof -
  have ne: "fname \<noteq> ''-''" using assms(2) by auto
  have m: "mode \<in> set [''w'', ''r'', ''wb'', ''rb'']" using assms(3) by auto
  show ?thesis unfolding fopen_def using assms(1,2) ne m by simp
qed

lemma fopen_preserves:
  "decode (snd (fopen f m w)) = decode w"
  "abspath (snd (fopen f m w)) = abspath w"
  "resolve (snd (fopen f m w)) = resolve w"
proof -
  have "decode (snd (fopen f m w)) = decode w \<and> abspath (snd (fopen f m w)) = abspath w
      \<and> resolve (snd (fopen f m w)) = resolve w"
  proof (cases "m \<in> {''w'', ''r'', ''wb'', ''rb''}
                  \<and> (\<exists>fname. f = Some fname \<and> fname \<noteq> [] \<and> last fname = CHR ''|'')")
    case True
    then obtain fname where f: "f = Some fname" and n: "fname \<noteq> []"
      and l: "last fname = CHR ''|''" and m: "m \<in> {''w'', ''r'', ''wb'', ''rb''}" by blast
    let ?p = "pipe_fopen (butlast fname) m (m = ''rb'') w"
    have s: "snd (fopen f m w) = snd ?p"
      unfolding f fopen_pipe [OF n l m] by (cases ?p) (auto split: sum.splits)
    show ?thesis
    proof (cases "m \<in> {''r'', ''rb''}")
      case True
      then show ?thesis unfolding s using pipe_fopen_read(1,2,3) [OF True] by simp
    next
      case False
      then have "m \<in> {''w'', ''wb''}" using m by auto
      then show ?thesis unfolding s by (simp add: pipe_fopen_write)
    qed
  next
    case False
    then show ?thesis
      by (cases f) (auto simp: fopen_def open_file_def split: if_splits)
  qed
  then show "decode (snd (fopen f m w)) = decode w" "abspath (snd (fopen f m w)) = abspath w"
    "resolve (snd (fopen f m w)) = resolve w" by simp_all
qed

subsection \<open>Stream source: pipe addresses\<close>

text \<open>
  C7. An address ending in the pipe marker, opened in a write mode, raises the
  configuration error of \<^verbatim>\<open>pipe_fopen\<close>: no stream is returned and the environment is
  left as it was, so no process was started. Only a read mode is accepted: the
  process is started and the configuration error is not raised. With \<^verbatim>\<open>"rb"\<close> the
  output stream is returned at once; with \<^verbatim>\<open>"r"\<close> the process is waited for first,
  and the stream is returned when the wait returns and the exit status is zero.
\<close>

theorem fopen_pipe_write_mode:
  assumes "fname \<noteq> []" and "last fname = CHR ''|''"
  shows "(mode \<in> {''w'', ''wb''} \<longrightarrow>
            fopen (Some fname) mode w
              = (Inl (RuntimeError ''Now only support input from pipe''), w))
       \<and> (mode \<in> {''r'', ''rb''} \<longrightarrow>
            spawned (snd (fopen (Some fname) mode w)) = spawned w @ [butlast fname]
          \<and> fst (fopen (Some fname) mode w)
              \<noteq> Inl (RuntimeError ''Now only support input from pipe''))
       \<and> (mode = ''rb'' \<longrightarrow>
            fst (fopen (Some fname) mode w) = Inr (Some (PipeStdout (butlast fname))))
       \<and> (mode = ''r'' \<longrightarrow>
            fst (fopen (Some fname) mode w)
              = (if pipe_blocks w (butlast fname) then Inl (Builtin NeverReturns)
                 else if proc_status w (butlast fname) \<noteq> 0 then Inl (Builtin KeyboardInterrupt)
                 else Inr (Some (PipeStdout (butlast fname)))))"
proof -
  let ?c = "butlast fname"
  have wr: "fopen (Some fname) mode w = (Inl (RuntimeError ''Now only support input from pipe''), w)"
    if m: "mode \<in> {''w'', ''wb''}"
  proof -
    have "mode \<in> {''w'', ''r'', ''wb'', ''rb''}" using m by auto
    from fopen_pipe [OF assms this] show ?thesis by (simp add: pipe_fopen_write [OF m])
  qed
  have rd: "spawned (snd (fopen (Some fname) mode w)) = spawned w @ [?c]
          \<and> fst (fopen (Some fname) mode w)
              = (if mode = ''rb'' then Inr (Some (PipeStdout ?c))
                 else if pipe_blocks w ?c then Inl (Builtin NeverReturns)
                 else if proc_status w ?c \<noteq> 0 then Inl (Builtin KeyboardInterrupt)
                 else Inr (Some (PipeStdout ?c)))"
    if m: "mode \<in> {''r'', ''rb''}"
  proof -
    let ?p = "pipe_fopen ?c mode (mode = ''rb'') w"
    have "mode \<in> {''w'', ''r'', ''wb'', ''rb''}" using m by auto
    note fo = fopen_pipe [OF assms this, of w]
    obtain r w' where p: "?p = (r, w')" by (cases ?p)
    have sp: "spawned w' = spawned w @ [?c]"
      using pipe_fopen_read(4) [OF m, of ?c "mode = ''rb''" w] p by simp
    have r: "r = (if mode = ''rb'' then Inr (PipeStdout ?c)
                  else if pipe_blocks w ?c then Inl (Builtin NeverReturns)
                  else if proc_status w ?c \<noteq> 0 then Inl (Builtin KeyboardInterrupt)
                  else Inr (PipeStdout ?c))"
      using pipe_fopen_read(5) [OF m, of ?c "mode = ''rb''" w] p by simp
    show ?thesis unfolding fo p using sp r by (cases r) (auto split: if_splits)
  qed
  have a: "mode \<in> {''r'', ''rb''} \<longrightarrow>
             spawned (snd (fopen (Some fname) mode w)) = spawned w @ [?c]
           \<and> fst (fopen (Some fname) mode w)
               \<noteq> Inl (RuntimeError ''Now only support input from pipe'')"
    using rd by auto
  have b: "mode = ''rb'' \<longrightarrow> fst (fopen (Some fname) mode w) = Inr (Some (PipeStdout ?c))"
    using rd by auto
  have c: "mode = ''r'' \<longrightarrow>
             fst (fopen (Some fname) mode w)
               = (if pipe_blocks w ?c then Inl (Builtin NeverReturns)
                  else if proc_status w ?c \<noteq> 0 then Inl (Builtin KeyboardInterrupt)
                  else Inr (Some (PipeStdout ?c)))"
    using rd by auto
  show ?thesis using wr a b c by blast
qed

theorem fopen_pipe_write_mode_witness:
  "fopen (Some ''cat a.scp |'') ''w'' world0
     = (Inl (RuntimeError ''Now only support input from pipe''), world0)
   \<and> fopen (Some ''cat a.scp |'') ''wb'' world0
     = (Inl (RuntimeError ''Now only support input from pipe''), world0)
   \<and> fst (fopen (Some ''cat a.scp |'') ''rb'' world0) = Inr (Some (PipeStdout ''cat a.scp ''))
   \<and> spawned (snd (fopen (Some ''cat a.scp |'') ''rb'' world0)) = [''cat a.scp '']
   \<and> fst (fopen (Some ''cat a.scp |'') ''r'' world0) = Inr (Some (PipeStdout ''cat a.scp ''))
   \<and> spawned (snd (fopen (Some ''cat a.scp |'') ''r'' world0)) = [''cat a.scp '']
   \<and> fst (fopen (Some ''exit 3|'') ''r'' (world0\<lparr>proc_status := (\<lambda>c. 3)\<rparr>))
       = Inl (Builtin KeyboardInterrupt)
   \<and> fopen (Some ''exit 3|'') ''w'' (world0\<lparr>proc_status := (\<lambda>c. 3)\<rparr>)
       = (Inl (RuntimeError ''Now only support input from pipe''), world0\<lparr>proc_status := (\<lambda>c. 3)\<rparr>)"
proof -
  have n: "''cat a.scp |'' \<noteq> []" "last ''cat a.scp |'' = CHR ''|''"
    "''exit 3|'' \<noteq> []" "last ''exit 3|'' = CHR ''|''" by simp_all
  have e: "\<not> pipe_blocks world0 c" "proc_status world0 c = 0" "spawned world0 = []"
    "\<not> pipe_blocks (world0\<lparr>proc_status := (\<lambda>c. 3)\<rparr>) c" for c
    by (simp_all add: world0_def pipe_blocks_def)
  show ?thesis
    using fopen_pipe_write_mode [OF n(1,2), of "''w''" world0]
          fopen_pipe_write_mode [OF n(1,2), of "''wb''" world0]
          fopen_pipe_write_mode [OF n(1,2), of "''rb''" world0]
          fopen_pipe_write_mode [OF n(1,2), of "''r''" world0]
          fopen_pipe_write_mode [OF n(3,4), of "''r''" "world0\<lparr>proc_status := (\<lambda>c. 3)\<rparr>"]
          fopen_pipe_write_mode [OF n(3,4), of "''w''" "world0\<lparr>proc_status := (\<lambda>c. 3)\<rparr>"]
          e
    by simp
qed

lemma fopen_Some_nonempty:
  "fopen (Some fname) m w = (Inr (Some h), w') \<Longrightarrow> fname \<noteq> []"
  by (auto simp: fopen_def split: if_splits)

lemma fclose_ok: "fname \<noteq> [] \<Longrightarrow> fst (fclose (Some fname) fd w) = None"
  by (auto simp: fclose_def split: option.splits)

subsection \<open>Facts about the index parser\<close>

text \<open>On the lines of its input, \<^verbatim>\<open>parse_scps\<close> returns what its loop returns.\<close>

lemma parse_scps_input:
  assumes "index_input scp w = Inr ls"
  shows "fst (parse_scps scp ap w) = parse_loop (decode w) scp ap [] 0 ls"
proof -
  obtain r w' where fo: "fopen (Some scp) ''r'' w = (r, w')"
    by (cases "fopen (Some scp) ''r'' w")
  from assms fo obtain f where r: "r = Inr f" and it: "iter_lines w' f = Inr ls"
    by (auto simp: index_input_def split: sum.splits)
  from it obtain h where f: "f = Some h"
    by (cases f) (auto simp: iter_lines_def)
  have ne: "scp \<noteq> []" using fo r f fopen_Some_nonempty by blast
  have d: "decode w' = decode w"
    using fopen_preserves(1) [of "Some scp" "''r''" w] fo by simp
  obtain c w'' where fc: "fclose (Some scp) f w' = (c, w'')"
    by (cases "fclose (Some scp) f w'")
  have "c = None" using fclose_ok [OF ne, of f w'] fc by simp
  then show ?thesis using fo r it fc d by (simp add: parse_scps_def)
qed

text \<open>
  An index behind a pipe is opened with \<^verbatim>\<open>"r"\<close>, so its command is waited for before
  a line is read: when the wait does not return or the status is not zero, there is no
  index input and \<^verbatim>\<open>parse_scps\<close> ends as the stream source does.
\<close>

lemma parse_scps_pipe_failed:
  assumes "scp \<noteq> []" and "last scp = CHR ''|''"
      and "pipe_blocks w (butlast scp) \<or> proc_status w (butlast scp) \<noteq> 0"
  shows "index_input scp w
           = Inl (Builtin (if pipe_blocks w (butlast scp) then NeverReturns
                           else KeyboardInterrupt))"
    and "fst (parse_scps scp ap w)
           = Inl (Builtin (if pipe_blocks w (butlast scp) then NeverReturns
                           else KeyboardInterrupt))"
proof -
  let ?p = "pipe_fopen (butlast scp) ''r'' (''r'' = ''rb'') w"
  let ?e = "Builtin (if pipe_blocks w (butlast scp) then NeverReturns else KeyboardInterrupt)"
  have m: "''r'' \<in> {''w'', ''r'', ''wb'', ''rb''}" and m': "''r'' \<in> {''r'', ''rb''}" by simp_all
  obtain r w' where p: "?p = (r, w')" by (cases ?p)
  have r: "r = Inl ?e"
    using pipe_fopen_read(5) [OF m', of "butlast scp" "''r'' = ''rb''" w] p assms(3) by auto
  have fo: "fopen (Some scp) ''r'' w = (Inl ?e, w')"
    unfolding fopen_pipe [OF assms(1,2) m] p r by simp
  show "index_input scp w = Inl ?e" by (simp add: index_input_def fo)
  show "fst (parse_scps scp ap w) = Inl ?e" by (simp add: parse_scps_def fo)
qed

lemma parse_loop_append:
  "parse_loop dec scp ap acc n (xs @ ys) =
     (case parse_loop dec scp ap acc n xs of
        Inl e \<Rightarrow> Inl e
      | Inr d \<Rightarrow> parse_loop dec scp ap d (n + length xs) ys)"
  by (induction xs arbitrary: acc n) (auto simp: Let_def split: sum.splits)

lemma dict_set_new: "\<not> dict_contains d k \<Longrightarrow> dict_set d k v = d @ [(k, v)]"
  by (induction d) (auto simp: dict_contains_def)

text \<open>One successful round of the loop: the line has two tokens and a new key.\<close>

lemma parse_loop_step:
  assumes "parse_loop dec scp ap acc n (rl # ls) = Inr d"
  shows "\<exists>a. length (line_tokens dec rl) = 2
           \<and> \<not> dict_contains acc (line_key dec rl)
           \<and> ap (line_tokens dec rl ! 1) = Inr a
           \<and> parse_loop dec scp ap (acc @ [(line_key dec rl, a)]) (n + 1) ls = Inr d"
proof -
  from assms obtain s where s: "decode_line dec rl = Inr s"
    by (auto split: sum.splits)
  let ?t = "py_split (py_strip s)"
  from assms s have len: "length ?t = 2"
    by (auto simp: Let_def split: if_splits)
  from assms s len have nc: "\<not> dict_contains acc (?t ! 0)"
    by (auto simp: Let_def split: if_splits)
  from assms s len nc obtain a where a: "ap (?t ! 1) = Inr a"
    and rec: "parse_loop dec scp ap (dict_set acc (?t ! 0) a) (n + 1) ls = Inr d"
    by (auto simp: Let_def split: sum.splits)
  have lt: "line_tokens dec rl = ?t" using s by (simp add: line_tokens_def)
  have lk: "line_key dec rl = ?t ! 0"
    using lt len by (cases ?t) (auto simp: line_key_def)
  have ds: "dict_set acc (?t ! 0) a = acc @ [(?t ! 0, a)]" using nc by (rule dict_set_new)
  show ?thesis using len nc a rec lt lk ds by auto
qed

lemma parse_loop_keys:
  "parse_loop dec scp ap acc n ls = Inr d \<Longrightarrow> map fst d = map fst acc @ map (line_key dec) ls"
proof (induction ls arbitrary: acc n)
  case Nil
  then show ?case by simp
next
  case (Cons rl ls)
  from parse_loop_step [OF Cons.prems] obtain a where
    rec: "parse_loop dec scp ap (acc @ [(line_key dec rl, a)]) (n + 1) ls = Inr d" by blast
  from Cons.IH [OF rec] show ?case by simp
qed

lemma parse_loop_distinct:
  "parse_loop dec scp ap acc n ls = Inr d \<Longrightarrow> distinct (map fst acc) \<Longrightarrow> distinct (map fst d)"
proof (induction ls arbitrary: acc n)
  case Nil
  then show ?case by simp
next
  case (Cons rl ls)
  from parse_loop_step [OF Cons.prems(1)] obtain a where
    nc: "\<not> dict_contains acc (line_key dec rl)" and
    rec: "parse_loop dec scp ap (acc @ [(line_key dec rl, a)]) (n + 1) ls = Inr d" by blast
  have "distinct (map fst (acc @ [(line_key dec rl, a)]))"
    using Cons.prems(2) nc by (simp add: dict_contains_def)
  from Cons.IH [OF rec this] show ?case .
qed

lemma parse_loop_tokens:
  "parse_loop dec scp ap acc n ls = Inr d \<Longrightarrow> rl \<in> set ls \<Longrightarrow> length (line_tokens dec rl) = 2"
proof (induction ls arbitrary: acc n)
  case Nil
  then show ?case by simp
next
  case (Cons x ls)
  from parse_loop_step [OF Cons.prems(1)] obtain a where
    len: "length (line_tokens dec x) = 2" and
    rec: "parse_loop dec scp ap (acc @ [(line_key dec x, a)]) (n + 1) ls = Inr d" by blast
  show ?case
  proof (cases "rl = x")
    case True
    then show ?thesis using len by simp
  next
    case False
    then have "rl \<in> set ls" using Cons.prems(2) by simp
    from Cons.IH [OF rec this] show ?thesis .
  qed
qed

text \<open>A line without exactly two tokens: no index is returned, whatever else the input holds.\<close>

lemma parse_scps_bad_line_fails:
  assumes "index_input scp w = Inr ls" and "rl \<in> set ls"
      and "length (line_tokens (decode w) rl) \<noteq> 2"
  shows "fst (parse_scps scp ap w) \<noteq> Inr d"
  using parse_scps_input [OF assms(1), of ap] parse_loop_tokens [of "decode w" scp ap "[]" 0 ls d rl]
    assms(2,3) by auto

text \<open>The first line that fails decides the error: here a line without two tokens.\<close>

lemma parse_scps_first_bad_line:
  assumes "index_input scp w = Inr (pre @ rl # rest)"
      and "parse_loop (decode w) scp ap [] 0 pre = Inr d"
      and "decode_line (decode w) rl = Inr raw_line"
      and "length (py_split (py_strip raw_line)) \<noteq> 2"
  shows "fst (parse_scps scp ap w)
           = Inl (RuntimeError (''Error format in line['' @ str_nat (length pre + 1) @ '']: ''
                                  @ raw_line))"
  using parse_scps_input [OF assms(1), of ap] assms(2,3,4)
  by (simp add: parse_loop_append Let_def)


subsection \<open>Facts about the reader\<close>

lemma Reader_init_Inr:
  assumes "fst (Reader_init scp ap w) = Inr self"
  shows "index_keys self = dict_keys (index_dict self)"
    and "fst (parse_scps scp ap w) = Inr (index_dict self)"
  using assms by (auto simp: Reader_init_def split: prod.splits sum.splits)

lemma dict_contains_nth: "n < length d \<Longrightarrow> dict_contains d (dict_keys d ! n)"
  by (simp add: dict_contains_def dict_keys_def)

lemma iter_keys_spec:
  "iter_keys ld keys = (pairs, err) \<Longrightarrow>
     map fst pairs = take (length pairs) keys
   \<and> map (Inr \<circ> snd) pairs = map (ld \<circ> fst) pairs
   \<and> (case err of
        None \<Rightarrow> length pairs = length keys
      | Some e \<Rightarrow> length pairs < length keys \<and> ld (keys ! length pairs) = Inl e)"
proof (induction keys arbitrary: pairs err)
  case Nil
  then show ?case by simp
next
  case (Cons key keys)
  show ?case
  proof (cases "ld key")
    case (Inl e)
    then show ?thesis using Cons.prems by auto
  next
    case (Inr p)
    obtain ys r where rec: "iter_keys ld keys = (ys, r)" by (cases "iter_keys ld keys")
    from Cons.prems Inr rec have p: "pairs = (key, p) # ys" and e: "err = r" by auto
    from Cons.IH [OF rec] show ?thesis using p e Inr
      by (auto split: option.splits)
  qed
qed

lemma iter_keys_all_loaded:
  "\<forall>key \<in> set keys. \<exists>p. ld key = Inr p \<Longrightarrow> snd (iter_keys ld keys) = None"
  by (induction keys) (auto split: sum.splits prod.splits)

lemma str_int_small: "str_int 5 = ''5''" "str_int 2 = ''2''" "str_int (- 1) = ''-1''"
  by code_simp+

subsection \<open>Random-access reader: selectors\<close>

text \<open>
  C2. For a reader built from an index and an integer \<open>i\<close> with \<open>0 \<le> i < length()\<close>,
  the lookup by \<open>i\<close> is the lookup by the key at position \<open>i\<close> of the key list: both
  are the load of that key.
\<close>

theorem getitem_int_eq_key:
  assumes "fst (Reader_init scp ap w) = Inr self"
      and "0 \<le> i" and "i < int (Reader_len self)"
  shows "Reader_getitem load self (IntSel i)
           = Reader_getitem load self (StrSel (index_keys self ! nat i))
       \<and> Reader_getitem load self (IntSel i) = (load self (index_keys self ! nat i), self)"
proof -
  have k: "index_keys self = dict_keys (index_dict self)"
    by (rule Reader_init_Inr(1) [OF assms(1)])
  have n: "nat i < length (index_dict self)" using assms(2,3) by (simp add: Reader_len_def)
  have c: "dict_contains (index_dict self) (index_keys self ! nat i)"
    using dict_contains_nth [OF n] k by simp
  have l: "length (index_keys self) = length (index_dict self)"
    using k by (simp add: dict_keys_def)
  show ?thesis using assms(2,3) c l
    by (simp add: Reader_getitem_def getitem_key_def Reader_len_def Let_def)
qed

theorem getitem_int_eq_key_witness:
  "Reader_getitem (ScriptReader_load codec0 world_A) reader_A (IntSel 1)
     = Reader_getitem (ScriptReader_load codec0 world_A) reader_A (StrSel ''k2'')
   \<and> Reader_getitem (ScriptReader_load codec0 world_A) reader_A (IntSel 1)
     = (Inr ''abc'', reader_A)"
proof -
  have h: "fst (Reader_init ''a.scp'' addr_processor world_A) = Inr reader_A" by code_simp
  have n: "(1::int) < int (Reader_len reader_A)" by code_simp
  have k: "index_keys reader_A ! nat 1 = ''k2''" by code_simp
  have l: "ScriptReader_load codec0 world_A reader_A ''k2'' = Inr ''abc''" by code_simp
  have z: "(0::int) \<le> 1" by simp
  note t = getitem_int_eq_key [OF h z n, of "ScriptReader_load codec0 world_A"]
  show ?thesis using t unfolding k l by blast
qed

text \<open>
  C3. For a reader built from an index: an integer selector below 0 or not below
  \<open>length()\<close> raises the \<^verbatim>\<open>KeyError\<close> whose message gives the selector and the bound; a
  string selector that is no key of the index raises the \<^verbatim>\<open>KeyError\<close> whose message
  gives the key. Both calls return the reader as it was.
\<close>

theorem getitem_lookup_errors:
  assumes "fst (Reader_init scp ap w) = Inr self"
  shows "((i < 0 \<or> int (Reader_len self) \<le> i) \<longrightarrow>
            Reader_getitem load self (IntSel i)
              = (Inl (KeyError (''Interger index out of range, '' @ str_int i @ '' vs ''
                                  @ str_int (int (Reader_len self)))), self))
       \<and> (\<not> Reader_contains self key \<longrightarrow>
            Reader_getitem load self (StrSel key)
              = (Inl (KeyError (''Missing utterance '' @ key @ ''!'')), self))"
proof -
  have k: "index_keys self = dict_keys (index_dict self)"
    by (rule Reader_init_Inr(1) [OF assms(1)])
  have l: "length (index_keys self) = length (index_dict self)"
    using k by (simp add: dict_keys_def)
  show ?thesis using l
    by (auto simp: Reader_getitem_def getitem_key_def Reader_len_def Reader_contains_def Let_def)
qed

theorem getitem_lookup_errors_witness:
  "Reader_getitem (ScriptReader_load codec0 world_A) reader_A (IntSel 5)
     = (Inl (KeyError ''Interger index out of range, 5 vs 2''), reader_A)
   \<and> Reader_getitem (ScriptReader_load codec0 world_A) reader_A (IntSel (- 1))
     = (Inl (KeyError ''Interger index out of range, -1 vs 2''), reader_A)
   \<and> Reader_getitem (ScriptReader_load codec0 world_A) reader_A (StrSel ''zz'')
     = (Inl (KeyError ''Missing utterance zz!''), reader_A)"
proof -
  have h: "fst (Reader_init ''a.scp'' addr_processor world_A) = Inr reader_A" by code_simp
  have n: "int (Reader_len reader_A) = 2" by code_simp
  have c: "\<not> Reader_contains reader_A ''zz''" by code_simp
  show ?thesis
    using getitem_lookup_errors [OF h, of 5 "ScriptReader_load codec0 world_A" "''zz''"]
      getitem_lookup_errors [OF h, of "- 1" "ScriptReader_load codec0 world_A" "''zz''"]
      n c str_int_small
    by simp
qed

subsection \<open>Random-access reader: iteration\<close>

text \<open>
  C4, as amended. For a reader built from an index of \<open>N\<close> lines, the key list is the
  keys of the lines in line order. The iteration yields pairs for a prefix of the
  key list, in order, each payload being the result of the load for its key. It ends
  without error after \<open>N\<close> pairs when every load succeeds, and otherwise with the error
  of the first load that raises. It leaves the reader as it was, and run again it
  yields the same.
\<close>

theorem Reader_iter_index_order:
  assumes "fst (Reader_init scp ap w) = Inr self"
      and "index_input scp w = Inr ls"
      and "Reader_iter load self = ((pairs, err), self')"
  shows "Reader_len self = length ls
       \<and> index_keys self = map (line_key (decode w)) ls
       \<and> map fst pairs = take (length pairs) (index_keys self)
       \<and> map (Inr \<circ> snd) pairs = map (load self \<circ> fst) pairs
       \<and> (case err of
            None \<Rightarrow> length pairs = length ls
          | Some e \<Rightarrow> length pairs < length ls
                     \<and> load self (index_keys self ! length pairs) = Inl e)
       \<and> ((\<forall>key \<in> set (index_keys self). \<exists>p. load self key = Inr p) \<longrightarrow>
            err = None \<and> length pairs = length ls)
       \<and> self' = self
       \<and> Reader_iter load self' = ((pairs, err), self')"
proof -
  have k: "index_keys self = dict_keys (index_dict self)"
    by (rule Reader_init_Inr(1) [OF assms(1)])
  have p: "parse_loop (decode w) scp ap [] 0 ls = Inr (index_dict self)"
    using Reader_init_Inr(2) [OF assms(1)] parse_scps_input [OF assms(2), of ap] by simp
  have keys: "index_keys self = map (line_key (decode w)) ls"
    using parse_loop_keys [OF p] k by (simp add: dict_keys_def)
  have len: "Reader_len self = length ls"
    using keys k by (metis Reader_len_def dict_keys_def length_map)
  have it: "iter_keys (load self) (index_keys self) = (pairs, err)" and s: "self' = self"
    using assms(3) by (auto simp: Reader_iter_def)
  have n: "length (index_keys self) = length ls" using keys by simp
  note spec = iter_keys_spec [OF it]
  have ok: "(\<forall>key \<in> set (index_keys self). \<exists>p. load self key = Inr p) \<longrightarrow> err = None"
    using iter_keys_all_loaded [of "index_keys self" "load self"] it by auto
  show ?thesis using spec ok keys len s assms(3) n
    by (auto split: option.splits)
qed

theorem Reader_iter_index_order_witness:
  "Reader_iter (ScriptReader_load codec0 world_A) reader_A
     = (([(''k1'', ''hi''), (''k2'', ''abc'')], None), reader_A)
   \<and> Reader_len reader_A = length [StrLine ''k1 a.ark:3\<newline>'', StrLine ''k2 a.ark:13\<newline>'']
   \<and> index_keys reader_A
     = map (line_key (decode world_A)) [StrLine ''k1 a.ark:3\<newline>'', StrLine ''k2 a.ark:13\<newline>'']"
proof -
  have h: "fst (Reader_init ''a.scp'' addr_processor world_A) = Inr reader_A" by code_simp
  have i: "index_input ''a.scp'' world_A
             = Inr [StrLine ''k1 a.ark:3\<newline>'', StrLine ''k2 a.ark:13\<newline>'']"
    by code_simp
  have r: "Reader_iter (ScriptReader_load codec0 world_A) reader_A
             = (([(''k1'', ''hi''), (''k2'', ''abc'')], None), reader_A)"
    by code_simp
  show ?thesis using Reader_iter_index_order [OF h i r] r by simp
qed

text \<open>
  The claim as stated fails when a load raises: the index below has two entries, the
  archive it names does not exist, and the iteration yields no pair.
\<close>

theorem Reader_iter_counterexample:
  "fst (Reader_init ''a.scp'' addr_processor
          (world_with [(''/data/a.scp'', ''k1 a.ark:3\<newline>k2 a.ark:13\<newline>'')]))
     = Inr reader_A
   \<and> Reader_len reader_A = 2
   \<and> fst (Reader_iter
            (ScriptReader_load codec0
               (world_with [(''/data/a.scp'', ''k1 a.ark:3\<newline>k2 a.ark:13\<newline>'')]))
            reader_A)
     = ([], Some (Builtin (NoSuchFile ''a.ark'')))"
  by code_simp

subsection \<open>Index parser: malformed lines\<close>

text \<open>
  C5, as amended. Let the index be opened and its lines read (behind a pipe, its
  command has been waited for and has exited with status zero). When a line of the
  index input has a number of tokens other than two, \<^verbatim>\<open>parse_scps\<close> returns no index.
  When moreover the lines before it all parse, the error raised is the format error
  giving the 1-based number of that line and its raw content.
\<close>

theorem parse_scps_format_error:
  assumes "index_input scp w = Inr (pre @ rl # rest)"
      and "decode_line (decode w) rl = Inr raw_line"
      and "length (py_split (py_strip raw_line)) \<noteq> 2"
  shows "(\<forall>d. fst (parse_scps scp ap w) \<noteq> Inr d)
       \<and> ((\<exists>d. parse_loop (decode w) scp ap [] 0 pre = Inr d) \<longrightarrow>
            fst (parse_scps scp ap w)
              = Inl (RuntimeError (''Error format in line['' @ str_nat (length pre + 1)
                                     @ '']: '' @ raw_line)))"
proof -
  have t: "length (line_tokens (decode w) rl) \<noteq> 2"
    using assms(2,3) by (simp add: line_tokens_def)
  have m: "rl \<in> set (pre @ rl # rest)" by simp
  have a: "\<forall>d. fst (parse_scps scp ap w) \<noteq> Inr d"
    using parse_scps_bad_line_fails [OF assms(1) m t] by blast
  show ?thesis
    using a parse_scps_first_bad_line [OF assms(1) _ assms(2,3)] by blast
qed

theorem parse_scps_format_error_witness:
  "fst (parse_scps ''b.scp'' addr_processor
          (world_with [(''/data/b.scp'', ''k1 a.ark:3\<newline>k2\<newline>k3 a.ark:11\<newline>'')]))
     = Inl (RuntimeError ''Error format in line[2]: k2\<newline>'')"
proof -
  let ?w = "world_with [(''/data/b.scp'', ''k1 a.ark:3\<newline>k2\<newline>k3 a.ark:11\<newline>'')]"
  have i: "index_input ''b.scp'' ?w
             = Inr ([StrLine ''k1 a.ark:3\<newline>''] @ StrLine ''k2\<newline>''
                      # [StrLine ''k3 a.ark:11\<newline>''])"
    by code_simp
  have d: "decode_line (decode ?w) (StrLine ''k2\<newline>'') = Inr ''k2\<newline>''" by code_simp
  have n: "length (py_split (py_strip ''k2\<newline>'')) \<noteq> 2" by code_simp
  have p: "\<exists>d. parse_loop (decode ?w) ''b.scp'' addr_processor [] 0
                  [StrLine ''k1 a.ark:3\<newline>''] = Inr d"
    by (rule exI [of _ "[(''k1'', (''a.ark'', 3))]"]) code_simp
  have s: "str_nat (length [StrLine ''k1 a.ark:3\<newline>''] + 1) = ''2''" by code_simp
  show ?thesis
    using parse_scps_format_error [OF i d n, of addr_processor] p unfolding s by simp
qed

text \<open>
  The claim as stated fails when an earlier line raises another error: the third line
  below has one token, and the error raised is that of the key repeated on the second
  line.
\<close>

theorem parse_scps_format_error_counterexample:
  "index_input ''d.scp'' (world_with [(''/data/d.scp'', ''k1 x\<newline>k1 y\<newline>bad\<newline>'')])
     = Inr [StrLine ''k1 x\<newline>'', StrLine ''k1 y\<newline>'', StrLine ''bad\<newline>'']
   \<and> py_split (py_strip ''bad\<newline>'') = [''bad'']
   \<and> fst (parse_scps ''d.scp'' Inr
             (world_with [(''/data/d.scp'', ''k1 x\<newline>k1 y\<newline>bad\<newline>'')]))
     = Inl (ValueError (''Duplicate key '' @ [CHR 0x27] @ ''k1'' @ [CHR 0x27]
                          @ '' exists in d.scp''))"
  by code_simp

subsection \<open>Index parser: blank lines\<close>

lemma dropWhile_all: "\<forall>c \<in> set s. P c \<Longrightarrow> dropWhile P s = []"
  by (induction s) auto

lemma strip_blank: "\<forall>c \<in> set s. isspace c \<Longrightarrow> py_strip s = []"
  by (simp add: py_strip_def dropWhile_all)

text \<open>
  C10, as amended. Let the index be opened and its lines read (behind a pipe, its
  command has been waited for and has exited with status zero). A blank or
  whitespace-only line strips to no token. An index input that holds one is never
  parsed into an index: blank lines are not skipped. When the lines before it all
  parse, the error raised is the format error for that line.
\<close>

theorem parse_scps_blank_line:
  assumes "index_input scp w = Inr (pre @ rl # rest)"
      and "decode_line (decode w) rl = Inr raw_line"
      and "\<forall>c \<in> set raw_line. isspace c"
  shows "py_split (py_strip raw_line) = []
       \<and> (\<forall>d. fst (parse_scps scp ap w) \<noteq> Inr d)
       \<and> ((\<exists>d. parse_loop (decode w) scp ap [] 0 pre = Inr d) \<longrightarrow>
            fst (parse_scps scp ap w)
              = Inl (RuntimeError (''Error format in line['' @ str_nat (length pre + 1)
                                     @ '']: '' @ raw_line)))"
proof -
  have e: "py_split (py_strip raw_line) = []"
    using strip_blank [OF assms(3)] by (simp add: py_split_def)
  then have n: "length (py_split (py_strip raw_line)) \<noteq> 2" by simp
  have t: "length (line_tokens (decode w) rl) \<noteq> 2"
    using assms(2) n by (simp add: line_tokens_def)
  have m: "rl \<in> set (pre @ rl # rest)" by simp
  have a: "\<forall>d. fst (parse_scps scp ap w) \<noteq> Inr d"
    using parse_scps_bad_line_fails [OF assms(1) m t] by blast
  show ?thesis
    using e a parse_scps_first_bad_line [OF assms(1) _ assms(2) n] by blast
qed

theorem parse_scps_blank_line_witness:
  "fst (parse_scps ''e.scp'' addr_processor
          (world_with [(''/data/e.scp'', ''k1 a.ark:3\<newline> \<newline>k3 a.ark:11\<newline>'')]))
     = Inl (RuntimeError ''Error format in line[2]:  \<newline>'')"
proof -
  let ?w = "world_with [(''/data/e.scp'', ''k1 a.ark:3\<newline> \<newline>k3 a.ark:11\<newline>'')]"
  have i: "index_input ''e.scp'' ?w
             = Inr ([StrLine ''k1 a.ark:3\<newline>''] @ StrLine '' \<newline>''
                      # [StrLine ''k3 a.ark:11\<newline>''])"
    by code_simp
  have d: "decode_line (decode ?w) (StrLine '' \<newline>'') = Inr '' \<newline>''" by code_simp
  have b: "\<forall>c \<in> set '' \<newline>''. isspace c" by code_simp
  have p: "\<exists>d. parse_loop (decode ?w) ''e.scp'' addr_processor [] 0
                  [StrLine ''k1 a.ark:3\<newline>''] = Inr d"
    by (rule exI [of _ "[(''k1'', (''a.ark'', 3))]"]) code_simp
  have s: "str_nat (length [StrLine ''k1 a.ark:3\<newline>''] + 1) = ''2''" by code_simp
  show ?thesis
    using parse_scps_blank_line [OF i d b, of addr_processor] p unfolding s by simp
qed

text \<open>
  The claim as stated fails when an earlier line raises another error: the third line
  below is blank, and the error raised is that of the key repeated on the second line.
\<close>

theorem parse_scps_blank_line_counterexample:
  "index_input ''f.scp'' (world_with [(''/data/f.scp'', ''k1 x\<newline>k1 y\<newline>\<newline>'')])
     = Inr [StrLine ''k1 x\<newline>'', StrLine ''k1 y\<newline>'', StrLine ''\<newline>'']
   \<and> fst (parse_scps ''f.scp'' Inr
             (world_with [(''/data/f.scp'', ''k1 x\<newline>k1 y\<newline>\<newline>'')]))
     = Inl (ValueError (''Duplicate key '' @ [CHR 0x27] @ ''k1'' @ [CHR 0x27]
                          @ '' exists in f.scp''))"
  by code_simp

subsection \<open>Index parser: duplicate keys\<close>

text \<open>
  C6, as amended. Let the index be opened and its lines read (behind a pipe, its
  command has been waited for and has exited with status zero). When two lines of the
  index input have the same key, \<^verbatim>\<open>parse_scps\<close> returns no index, so no entry is ever
  replaced. When moreover the lines before the later of the two all parse and that
  line has two tokens, the error raised is the duplicate-key error giving the key and
  the path of the index.
\<close>

theorem parse_scps_duplicate_key:
  assumes "index_input scp w = Inr ls"
      and "i < j" and "j < length ls"
      and "line_key (decode w) (ls ! i) = line_key (decode w) (ls ! j)"
  shows "(\<forall>d. fst (parse_scps scp ap w) \<noteq> Inr d)
       \<and> ((\<exists>d. parse_loop (decode w) scp ap [] 0 (take j ls) = Inr d)
            \<and> length (line_tokens (decode w) (ls ! j)) = 2 \<longrightarrow>
            fst (parse_scps scp ap w)
              = Inl (ValueError (''Duplicate key '' @ [CHR 0x27] @ line_key (decode w) (ls ! j)
                                   @ [CHR 0x27] @ '' exists in '' @ scp)))"
proof -
  let ?dec = "decode w"
  have run: "fst (parse_scps scp ap w) = parse_loop ?dec scp ap [] 0 ls"
    by (rule parse_scps_input [OF assms(1)])
  have a: "fst (parse_scps scp ap w) \<noteq> Inr d" for d
  proof
    assume "fst (parse_scps scp ap w) = Inr d"
    then have p: "parse_loop ?dec scp ap [] 0 ls = Inr d" using run by simp
    have "distinct (map fst d)" using parse_loop_distinct [OF p] by simp
    then have "distinct (map (line_key ?dec) ls)" using parse_loop_keys [OF p] by simp
    then show False
      using assms(2,3,4) by (auto simp: distinct_conv_nth)
  qed
  have b: "fst (parse_scps scp ap w)
             = Inl (ValueError (''Duplicate key '' @ [CHR 0x27] @ line_key ?dec (ls ! j)
                                  @ [CHR 0x27] @ '' exists in '' @ scp))"
    if p: "parse_loop ?dec scp ap [] 0 (take j ls) = Inr d"
      and t: "length (line_tokens ?dec (ls ! j)) = 2" for d
  proof -
    have split: "ls = take j ls @ ls ! j # drop (Suc j) ls"
      using assms(3) by (simp add: id_take_nth_drop)
    obtain s where s: "decode_line ?dec (ls ! j) = Inr s"
      using t by (cases "decode_line ?dec (ls ! j)") (auto simp: line_tokens_def)
    have lt: "line_tokens ?dec (ls ! j) = py_split (py_strip s)"
      using s by (simp add: line_tokens_def)
    have lk: "line_key ?dec (ls ! j) = py_split (py_strip s) ! 0"
      using lt t by (cases "py_split (py_strip s)") (auto simp: line_key_def)
    have "map fst d = map (line_key ?dec) (take j ls)" using parse_loop_keys [OF p] by simp
    moreover have "line_key ?dec (ls ! i) \<in> set (map (line_key ?dec) (take j ls))"
      using assms(2,3) by (auto simp: in_set_conv_nth intro!: image_eqI [of _ _ "ls ! i"]
                             exI [of _ i])
    ultimately have c: "dict_contains d (py_split (py_strip s) ! 0)"
      using assms(4) lk by (simp add: dict_contains_def)
    have "parse_loop ?dec scp ap [] 0 ls
            = parse_loop ?dec scp ap d (0 + length (take j ls)) (ls ! j # drop (Suc j) ls)"
      using parse_loop_append [of ?dec scp ap "[]" 0 "take j ls" "ls ! j # drop (Suc j) ls"]
        p split by simp
    also have "\<dots> = Inl (ValueError (''Duplicate key '' @ [CHR 0x27] @ line_key ?dec (ls ! j)
                                       @ [CHR 0x27] @ '' exists in '' @ scp))"
      using s c lt t lk by (simp add: Let_def)
    finally show ?thesis using run by simp
  qed
  show ?thesis using a b by blast
qed

theorem parse_scps_duplicate_key_witness:
  "fst (parse_scps ''g.scp'' addr_processor
          (world_with [(''/data/g.scp'', ''k1 a.ark:3\<newline>k2 a.ark:13\<newline>k1 a.ark:3\<newline>'')]))
     = Inl (ValueError (''Duplicate key '' @ [CHR 0x27] @ ''k1'' @ [CHR 0x27]
                          @ '' exists in g.scp''))"
proof -
  let ?w = "world_with [(''/data/g.scp'', ''k1 a.ark:3\<newline>k2 a.ark:13\<newline>k1 a.ark:3\<newline>'')]"
  let ?ls = "[StrLine ''k1 a.ark:3\<newline>'', StrLine ''k2 a.ark:13\<newline>'', StrLine ''k1 a.ark:3\<newline>'']"
  have i: "index_input ''g.scp'' ?w = Inr ?ls" by code_simp
  have o: "(0::nat) < 2" and l: "2 < length ?ls" by simp_all
  have k: "line_key (decode ?w) (?ls ! 0) = line_key (decode ?w) (?ls ! 2)" by code_simp
  have p: "\<exists>d. parse_loop (decode ?w) ''g.scp'' addr_processor [] 0 (take 2 ?ls) = Inr d"
    by (rule exI [of _ "[(''k1'', (''a.ark'', 3)), (''k2'', (''a.ark'', 13))]"]) code_simp
  have t: "length (line_tokens (decode ?w) (?ls ! 2)) = 2" by code_simp
  have v: "line_key (decode ?w) (?ls ! 2) = ''k1''" by code_simp
  show ?thesis
    using parse_scps_duplicate_key [OF i o l k, of addr_processor] p t unfolding v by simp
qed

text \<open>
  The claim as stated fails when a line between the two raises another error: the first
  and third lines below have the key \<^verbatim>\<open>k1\<close>, and the error raised is the format error of
  the second line.
\<close>

theorem parse_scps_duplicate_key_counterexample:
  "index_input ''h.scp'' (world_with [(''/data/h.scp'', ''k1 x\<newline>bad\<newline>k1 y\<newline>'')])
     = Inr [StrLine ''k1 x\<newline>'', StrLine ''bad\<newline>'', StrLine ''k1 y\<newline>'']
   \<and> line_key Some (StrLine ''k1 x\<newline>'') = ''k1''
   \<and> line_key Some (StrLine ''k1 y\<newline>'') = ''k1''
   \<and> fst (parse_scps ''h.scp'' Inr
             (world_with [(''/data/h.scp'', ''k1 x\<newline>bad\<newline>k1 y\<newline>'')]))
     = Inl (RuntimeError ''Error format in line[2]: bad\<newline>'')"
  by code_simp

subsection \<open>Facts about the archive writer\<close>

lemma record_offsets_length: "length (record_offsets io base recs) = length recs"
  by (induction recs arbitrary: base) auto

lemma with_files_fields:
  "resolve (with_files w ra rs A S) = resolve w"
  "abspath (with_files w ra rs A S) = abspath w"
  "decode (with_files w ra rs A S) = decode w"
  "files (with_files w ra rs A S) rs = Some S"
  "ra \<noteq> rs \<Longrightarrow> files (with_files w ra rs A S) ra = Some A"
  by (simp_all add: with_files_def)

lemma with_files_archive:
  "ra \<noteq> rs \<Longrightarrow>
     (with_files w ra rs A S)\<lparr>files := (files (with_files w ra rs A S))(ra \<mapsto> A')\<rparr>
       = with_files w ra rs A' S"
  by (auto simp: with_files_def fun_eq_iff)

lemma with_files_index:
  "(with_files w ra rs A S)\<lparr>files := (files (with_files w ra rs A S))(rs \<mapsto> S')\<rparr>
     = with_files w ra rs A S'"
  by (auto simp: with_files_def fun_eq_iff)

text \<open>One \<^verbatim>\<open>write\<close> to an archive and an index that are regular files.\<close>

lemma write_step:
  assumes "ark_file self = Some (File ark ''wb'')" and "scp_file self = Some (File scp ''w'')"
      and "ark_path self = ark" and "ark \<noteq> ''-''" and "resolve w ark \<noteq> resolve w scp"
  shows "ArchiveWriter_write io self key m (with_files w (resolve w ark) (resolve w scp) A S)
           = (Inr (), with_files w (resolve w ark) (resolve w scp)
                        (A @ frame io (key, m))
                        (S @ scp_entry key (abspath w ark) (length A + length (write_token io key))))"
proof -
  let ?ra = "resolve w ark" and ?rs = "resolve w scp"
  let ?st = "with_files w ?ra ?rs"
  have w1: "hwrite (Some (File ark ''wb'')) d (?st B S) = (Inr (), ?st (B @ d) S)" for d B
    using assms(5) by (simp add: hwrite_def with_files_fields with_files_archive)
  have w2: "hwrite (Some (File scp ''w'')) d (?st B S) = (Inr (), ?st B (S @ d))" for d B
    by (simp add: hwrite_def with_files_fields with_files_index)
  have t: "tell (Some (File ark ''wb'')) (?st B S) = Inr (length B)" for B
    using assms(5) by (simp add: tell_def with_files_fields)
  show ?thesis
    using assms(1-4) by (simp add: ArchiveWriter_write_def w1 w2 t frame_def with_files_fields)
qed

lemma write_all_files:
  assumes "ark_file self = Some (File ark ''wb'')" and "scp_file self = Some (File scp ''w'')"
      and "ark_path self = ark" and "ark \<noteq> ''-''" and "resolve w ark \<noteq> resolve w scp"
  shows "write_all io self recs (with_files w (resolve w ark) (resolve w scp) A S)
           = (Inr (), with_files w (resolve w ark) (resolve w scp)
                        (A @ concat (map (frame io) recs))
                        (S @ concat (index_lines io (abspath w ark) (length A) recs)))"
proof (induction recs arbitrary: A S)
  case Nil
  then show ?case by (simp add: index_lines_def)
next
  case (Cons r recs)
  obtain key m where r: "r = (key, m)" by (cases r)
  show ?case
    using write_step [OF assms, of io key m A S] Cons.IH
    by (simp add: r index_lines_def frame_def)
qed

lemma Writer_enter_files:
  assumes "plain_path ark" and "plain_path scp"
  shows "Writer_enter \<lparr>scp_path = Some scp, ark_path = ark\<rparr> w
           = (Inr \<lparr>scp_path = Some scp, ark_path = ark,
                   ark_file = Some (File ark ''wb''), scp_file = Some (File scp ''w'')\<rparr>,
              with_files w (resolve w ark) (resolve w scp) [] [])"
  using assms
  by (simp add: Writer_enter_def fopen_def open_file_def plain_path_def with_files_def)

lemma write_archive_files:
  assumes "plain_path ark" and "plain_path scp" and "resolve w ark \<noteq> resolve w scp"
  shows "write_archive io ark (Some scp) recs w
           = (Inr (), (with_files w (resolve w ark) (resolve w scp)
                         (concat (map (frame io) recs))
                         (concat (index_lines io (abspath w ark) 0 recs)))
                      \<lparr>closed := closed w @ [File ark ''wb'', File scp ''w'']\<rparr>)"
proof -
  let ?self = "\<lparr>scp_path = Some scp, ark_path = ark,
                 ark_file = Some (File ark ''wb''), scp_file = Some (File scp ''w'')\<rparr>"
  have i: "Writer_init ark (Some scp) w = (\<lparr>scp_path = Some scp, ark_path = ark\<rparr>, w)"
    using assms(1) by (simp add: Writer_init_def plain_path_def)
  have a: "write_all io ?self recs (with_files w (resolve w ark) (resolve w scp) [] [])
             = (Inr (), with_files w (resolve w ark) (resolve w scp)
                          ([] @ concat (map (frame io) recs))
                          ([] @ concat (index_lines io (abspath w ark) (length ([]::string)) recs)))"
    using assms(1,3) by (intro write_all_files) (simp_all add: plain_path_def)
  show ?thesis
    using assms(1,2) a
    by (simp add: write_archive_def i Writer_enter_files Writer_exit_def fclose_def
        plain_path_def with_files_def)
qed

text \<open>In the archive, the sentinel and payload of a record start at its offset.\<close>

lemma archive_at_offset:
  "i < length recs \<Longrightarrow>
     drop (record_offsets io (length A) recs ! i) (A @ concat (map (frame io) recs))
       = write_binary_symbol io @ write_common_mat io (snd (recs ! i))
           @ concat (map (frame io) (drop (Suc i) recs))"
proof (induction recs arbitrary: A i)
  case Nil
  then show ?case by simp
next
  case (Cons r recs)
  show ?case
  proof (cases i)
    case 0
    then show ?thesis by (simp add: frame_def)
  next
    case (Suc j)
    then have j: "j < length recs" using Cons.prems by simp
    have "length (A @ frame io r) = length A + length (frame io r)" by simp
    then show ?thesis using Cons.IH [OF j, of "A @ frame io r"] Suc by simp
  qed
qed

subsection \<open>Archive writer: the index stream and the offset\<close>

lemma Writer_init_fields:
  "ark_path (fst (Writer_init ark scp w)) = ark"
  "ark = ''-'' \<Longrightarrow> scp_path (fst (Writer_init ark scp w)) = None
                     \<or> scp_path (fst (Writer_init ark scp w)) = Some []"
  by (auto simp: Writer_init_def)

lemma fopen_no_address: "fname = None \<or> fname = Some [] \<Longrightarrow> fopen fname m w = (Inr fd, w') \<Longrightarrow> fd = None"
  by (auto simp: fopen_def split: if_splits)

lemma Writer_enter_fields:
  assumes "fst (Writer_enter cfg w) = Inr self"
  shows "ark_path self = ark_path cfg"
    and "scp_path cfg = None \<or> scp_path cfg = Some [] \<Longrightarrow> scp_file self = None"
proof -
  obtain r1 w1 where o1: "fopen (Some (ark_path cfg)) ''wb'' w = (r1, w1)"
    by (cases "fopen (Some (ark_path cfg)) ''wb'' w")
  from assms o1 obtain af where r1: "r1 = Inr af"
    by (cases r1) (auto simp: Writer_enter_def)
  obtain r2 w2 where o2: "fopen (scp_path cfg) ''w'' w1 = (r2, w2)"
    by (cases "fopen (scp_path cfg) ''w'' w1")
  from assms o1 r1 o2 obtain sf where r2: "r2 = Inr sf"
    by (cases r2) (auto simp: Writer_enter_def)
  have self: "self = \<lparr>scp_path = scp_path cfg, ark_path = ark_path cfg,
                       ark_file = af, scp_file = sf\<rparr>"
    using assms o1 r1 o2 r2 by (simp add: Writer_enter_def)
  show "ark_path self = ark_path cfg" using self by simp
  show "scp_file self = None" if "scp_path cfg = None \<or> scp_path cfg = Some []"
    using fopen_no_address [OF that, of "''w''" w1 sf w2] o2 r2 self by simp
qed

lemma hwrite_error:
  "fst (hwrite fd d w) = Inl e \<Longrightarrow> e = Builtin NoneAttribute \<or> e = Builtin Unsupported"
  by (auto simp: hwrite_def split: option.splits handle.splits if_splits)

lemma tell_error:
  "tell fd w = Inl e \<Longrightarrow> e = Builtin NoneAttribute \<or> e = Builtin IllegalSeek"
  by (auto simp: tell_def split: option.splits handle.splits)

text \<open>
  A \<^verbatim>\<open>write\<close> of a writer whose archive is not standard output, or that has no index
  stream, never reads the offset unbound.
\<close>

lemma write_offset_bound:
  assumes "scp_file self \<noteq> None \<longrightarrow> ark_path self \<noteq> ''-''"
  shows "fst (ArchiveWriter_write io self key m w) \<noteq> Inl (Builtin (UnboundLocal v))"
proof
  assume u: "fst (ArchiveWriter_write io self key m w) = Inl (Builtin (UnboundLocal v))"
  obtain r1 w1 where h1: "hwrite (ark_file self) (write_token io key) w = (r1, w1)"
    by (cases "hwrite (ark_file self) (write_token io key) w")
  have e1: "r1 \<noteq> Inl (Builtin (UnboundLocal v))"
    using hwrite_error [of "ark_file self" "write_token io key" w] h1 by auto
  obtain r2 w2 where h2: "hwrite (ark_file self) (write_binary_symbol io) w1 = (r2, w2)"
    by (cases "hwrite (ark_file self) (write_binary_symbol io) w1")
  have e2: "r2 \<noteq> Inl (Builtin (UnboundLocal v))"
    using hwrite_error [of "ark_file self" "write_binary_symbol io" w1] h2 by auto
  obtain r3 w3 where h3: "hwrite (ark_file self) (write_common_mat io m) w2 = (r3, w3)"
    by (cases "hwrite (ark_file self) (write_common_mat io m) w2")
  have e3: "r3 \<noteq> Inl (Builtin (UnboundLocal v))"
    using hwrite_error [of "ark_file self" "write_common_mat io m" w2] h3 by auto
  have e4: "tell (ark_file self) w1 \<noteq> Inl (Builtin (UnboundLocal v))"
    using tell_error [of "ark_file self" w1] by auto
  have e5: "fst (hwrite (Some sf) d w3) \<noteq> Inl (Builtin (UnboundLocal v))" for sf d
    using hwrite_error [of "Some sf" d w3] by auto
  show False
  proof (cases "scp_file self")
    case None
    then show ?thesis
      using u h1 h2 h3 e1 e2 e3 e4
      by (auto simp: ArchiveWriter_write_def split: sum.splits if_splits)
  next
    case (Some sf)
    then have "ark_path self \<noteq> ''-''" using assms by simp
    then show ?thesis
      using u h1 h2 h3 e1 e2 e3 e4 e5 [of sf] Some
      by (auto simp: ArchiveWriter_write_def split: sum.splits)
  qed
qed

text \<open>
  C9. A writer constructed and entered has an index stream only if its archive is not
  standard output: construction leaves no index path when the archive address is
  \<^verbatim>\<open>"-"\<close>, dropping a given one with a warning, and entering opens no index stream
  then. So no \<^verbatim>\<open>write\<close> reads the offset unbound; and a \<^verbatim>\<open>write\<close> that succeeds with
  an index stream has appended the index line whose offset is the archive position
  told after the token was written and before the sentinel is.
\<close>

theorem ArchiveWriter_offset_defined:
  assumes "fst (Writer_enter (fst (Writer_init ark scp w0)) (snd (Writer_init ark scp w0)))
             = Inr self"
  shows "(ark = ''-'' \<and> scp \<noteq> None \<and> scp \<noteq> Some [] \<longrightarrow>
            scp_path (fst (Writer_init ark scp w0)) = None
          \<and> warnings (snd (Writer_init ark scp w0))
              = warnings w0 @ [''Ignore .scp output discriptor cause dump archives to stdout''])
       \<and> (ark = ''-'' \<longrightarrow>
            (scp_path (fst (Writer_init ark scp w0)) = None
               \<or> scp_path (fst (Writer_init ark scp w0)) = Some [])
          \<and> scp_file self = None)
       \<and> ark_path self = ark
       \<and> (scp_file self \<noteq> None \<longrightarrow> ark_path self \<noteq> ''-'')
       \<and> (\<forall>(io :: 'm codec) key m w.
            fst (ArchiveWriter_write io self key m w) \<noteq> Inl (Builtin (UnboundLocal ''offset'')))
       \<and> (\<forall>(io :: 'm codec) key m w sf.
            scp_file self = Some sf \<and> fst (ArchiveWriter_write io self key m w) = Inr () \<longrightarrow>
            (\<exists>off w1 w2 w3.
                hwrite (ark_file self) (write_token io key) w = (Inr (), w1)
              \<and> tell (ark_file self) w1 = Inr off
              \<and> hwrite (ark_file self) (write_binary_symbol io) w1 = (Inr (), w2)
              \<and> hwrite (ark_file self) (write_common_mat io m) w2 = (Inr (), w3)
              \<and> ArchiveWriter_write io self key m w
                  = hwrite (Some sf) (scp_entry key (abspath w3 (ark_path self)) off) w3))"
proof -
  let ?cfg = "fst (Writer_init ark scp w0)"
  have a: "ark = ''-'' \<and> scp \<noteq> None \<and> scp \<noteq> Some [] \<longrightarrow>
             scp_path ?cfg = None
           \<and> warnings (snd (Writer_init ark scp w0))
               = warnings w0 @ [''Ignore .scp output discriptor cause dump archives to stdout'']"
    by (simp add: Writer_init_def warn_def)
  have p: "ark_path self = ark"
    using Writer_enter_fields(1) [OF assms] Writer_init_fields(1) by simp
  have inv: "scp_file self \<noteq> None \<longrightarrow> ark_path self \<noteq> ''-''"
    using Writer_enter_fields(2) [OF assms] Writer_init_fields(2) [of ark scp w0] p by auto
  have b: "\<forall>(io :: 'm codec) key m w.
             fst (ArchiveWriter_write io self key m w) \<noteq> Inl (Builtin (UnboundLocal ''offset''))"
    by (intro allI) (rule write_offset_bound [OF inv])
  have c: "\<exists>off w1 w2 w3.
                hwrite (ark_file self) (write_token io key) w = (Inr (), w1)
              \<and> tell (ark_file self) w1 = Inr off
              \<and> hwrite (ark_file self) (write_binary_symbol io) w1 = (Inr (), w2)
              \<and> hwrite (ark_file self) (write_common_mat io m) w2 = (Inr (), w3)
              \<and> ArchiveWriter_write io self key m w
                  = hwrite (Some sf) (scp_entry key (abspath w3 (ark_path self)) off) w3"
    if sf: "scp_file self = Some sf" and ok: "fst (ArchiveWriter_write io self key m w) = Inr ()"
    for io :: "'m codec" and key m w sf
  proof -
    have n: "ark_path self \<noteq> ''-''" using inv sf by simp
    show ?thesis
      using ok sf n
      by (auto simp: ArchiveWriter_write_def split: sum.splits prod.splits option.splits)
  qed
  have n: "ark = ''-'' \<longrightarrow>
             (scp_path ?cfg = None \<or> scp_path ?cfg = Some []) \<and> scp_file self = None"
    using Writer_enter_fields(2) [OF assms] Writer_init_fields(2) [of ark scp w0] by auto
  show ?thesis using a n p inv b c by blast
qed

theorem ArchiveWriter_offset_defined_witness:
  "warnings (snd (Writer_init ''-'' (Some ''a.scp'') world0))
     = [''Ignore .scp output discriptor cause dump archives to stdout'']
   \<and> scp_path (fst (Writer_init ''-'' (Some ''a.scp'') world0)) = None
   \<and> scp_file \<lparr>scp_path = None, ark_path = ''-'', ark_file = Some Stdout_buffer,
                scp_file = None\<rparr> = None
   \<and> fst (ArchiveWriter_write codec0
            \<lparr>scp_path = None, ark_path = ''-'', ark_file = Some Stdout_buffer, scp_file = None\<rparr>
            ''k1'' ''hi'' world0)
     \<noteq> Inl (Builtin (UnboundLocal ''offset''))
   \<and> (\<exists>off w1 w2 w3.
         hwrite (Some (File ''a.ark'' ''wb'')) (write_token codec0 ''k1'')
           (snd (Writer_enter \<lparr>scp_path = Some ''a.scp'', ark_path = ''a.ark''\<rparr> world0))
           = (Inr (), w1)
       \<and> tell (Some (File ''a.ark'' ''wb'')) w1 = Inr off
       \<and> hwrite (Some (File ''a.ark'' ''wb'')) (write_binary_symbol codec0) w1 = (Inr (), w2)
       \<and> hwrite (Some (File ''a.ark'' ''wb'')) (write_common_mat codec0 ''hi'') w2 = (Inr (), w3)
       \<and> ArchiveWriter_write codec0
            \<lparr>scp_path = Some ''a.scp'', ark_path = ''a.ark'',
              ark_file = Some (File ''a.ark'' ''wb''), scp_file = Some (File ''a.scp'' ''w'')\<rparr>
            ''k1'' ''hi''
            (snd (Writer_enter \<lparr>scp_path = Some ''a.scp'', ark_path = ''a.ark''\<rparr> world0))
           = hwrite (Some (File ''a.scp'' ''w'')) (scp_entry ''k1'' (abspath w3 ''a.ark'') off) w3)"
proof -
  let ?self = "\<lparr>scp_path = Some ''a.scp'', ark_path = ''a.ark'',
                 ark_file = Some (File ''a.ark'' ''wb''), scp_file = Some (File ''a.scp'' ''w'')\<rparr>"
  let ?wE = "snd (Writer_enter \<lparr>scp_path = Some ''a.scp'', ark_path = ''a.ark''\<rparr> world0)"
  have i2: "Writer_init ''a.ark'' (Some ''a.scp'') world0
              = (\<lparr>scp_path = Some ''a.scp'', ark_path = ''a.ark''\<rparr>, world0)"
    by (simp add: Writer_init_def)
  have h2: "fst (Writer_enter (fst (Writer_init ''a.ark'' (Some ''a.scp'') world0))
                   (snd (Writer_init ''a.ark'' (Some ''a.scp'') world0))) = Inr ?self"
    unfolding i2 by code_simp
  have s2: "scp_file ?self = Some (File ''a.scp'' ''w'')" by simp
  have ok: "fst (ArchiveWriter_write codec0 ?self ''k1'' ''hi'' ?wE) = Inr ()" by code_simp
  note t2 = ArchiveWriter_offset_defined [OF h2, where 'm = string]
  have x: "\<exists>off w1 w2 w3.
             hwrite (ark_file ?self) (write_token codec0 ''k1'') ?wE = (Inr (), w1)
           \<and> tell (ark_file ?self) w1 = Inr off
           \<and> hwrite (ark_file ?self) (write_binary_symbol codec0) w1 = (Inr (), w2)
           \<and> hwrite (ark_file ?self) (write_common_mat codec0 ''hi'') w2 = (Inr (), w3)
           \<and> ArchiveWriter_write codec0 ?self ''k1'' ''hi'' ?wE
               = hwrite (Some (File ''a.scp'' ''w''))
                   (scp_entry ''k1'' (abspath w3 (ark_path ?self)) off) w3"
    using t2 s2 ok by blast
  have h: "fst (Writer_enter (fst (Writer_init ''-'' (Some ''a.scp'') world0))
                  (snd (Writer_init ''-'' (Some ''a.scp'') world0)))
             = Inr \<lparr>scp_path = None, ark_path = ''-'', ark_file = Some Stdout_buffer,
                    scp_file = None\<rparr>"
    by code_simp
  have w: "warnings world0 = []" by code_simp
  note t = ArchiveWriter_offset_defined [OF h, where 'm = string]
  have u: "fst (ArchiveWriter_write codec0
                  \<lparr>scp_path = None, ark_path = ''-'', ark_file = Some Stdout_buffer,
                    scp_file = None\<rparr> ''k1'' ''hi'' world0)
             \<noteq> Inl (Builtin (UnboundLocal ''offset''))"
    using t by blast
  have a: "scp_path (fst (Writer_init ''-'' (Some ''a.scp'') world0)) = None
         \<and> warnings (snd (Writer_init ''-'' (Some ''a.scp'') world0))
             = warnings world0
                 @ [''Ignore .scp output discriptor cause dump archives to stdout'']"
    using t by simp
  show ?thesis using u a w x by simp
qed

subsection \<open>Facts about reading the written index\<close>

lemma text_lines_concat:
  assumes "\<forall>l \<in> set ls. \<exists>body. l = body @ [CHR 0x0A]
                              \<and> (\<forall>c \<in> set body. c \<noteq> CHR 0x0A \<and> c \<noteq> CHR 0x0D)"
  shows "text_lines_aux [] (concat ls) = ls"
  using assms
proof (induction ls)
  case Nil
  then show ?case by simp
next
  case (Cons l ls)
  then obtain body where l: "l = body @ [CHR 0x0A]"
    and b: "\<forall>c \<in> set body. c \<noteq> CHR 0x0A \<and> c \<noteq> CHR 0x0D" by auto
  have "text_lines_aux [] (body @ CHR 0x0A # concat ls)
          = ([] @ body @ [CHR 0x0A]) # text_lines_aux [] (concat ls)"
    by (rule text_lines_aux_line [OF b])
  then show ?case using Cons l by simp
qed

lemma scp_entry_is_line:
  assumes "token_ok key" and "\<forall>c \<in> set path. \<not> isspace c"
  shows "\<exists>body. scp_entry key path off = body @ [CHR 0x0A]
               \<and> (\<forall>c \<in> set body. c \<noteq> CHR 0x0A \<and> c \<noteq> CHR 0x0D)"
proof -
  have sp: "isspace CHR 0x0A" "isspace CHR 0x0D" by (simp_all add: isspace_def)
  have plain: "c \<noteq> CHR 0x0A \<and> c \<noteq> CHR 0x0D" if "\<not> isspace c" for c
    using that sp by auto
  have d: "\<forall>c \<in> set (str_nat off). \<not> isspace c"
    using str_nat_digits [of off] is_digit_plain(1) by auto
  let ?body = "key @ [CHR 0x09] @ path @ '':'' @ str_nat off"
  have "\<forall>c \<in> set ?body. c \<noteq> CHR 0x0A \<and> c \<noteq> CHR 0x0D"
    using assms d plain by (auto simp: token_ok_def)
  moreover have "scp_entry key path off = ?body @ [CHR 0x0A]" by (simp add: scp_entry_def)
  ultimately show ?thesis by blast
qed

lemma text_lines_index:
  assumes "\<forall>r \<in> set recs. token_ok (fst r)" and "\<forall>c \<in> set path. \<not> isspace c"
  shows "text_lines (concat (index_lines io path base recs)) = index_lines io path base recs"
  unfolding text_lines_def
proof (rule text_lines_concat, rule ballI)
  fix l assume "l \<in> set (index_lines io path base recs)"
  then obtain r off where "r \<in> set recs" and l: "l = scp_entry (fst r) path off"
    by (auto simp: index_lines_def dest: set_zip_leftD)
  then show "\<exists>body. l = body @ [CHR 0x0A] \<and> (\<forall>c \<in> set body. c \<noteq> CHR 0x0A \<and> c \<noteq> CHR 0x0D)"
    using scp_entry_is_line [of "fst r" path off] assms by auto
qed

text \<open>The index parser on lines written by \<^verbatim>\<open>ArchiveWriter.write\<close>.\<close>

lemma parse_entries:
  assumes "\<forall>r \<in> set recs. token_ok (fst r)" and "\<forall>c \<in> set path. \<not> isspace c"
      and "distinct (map fst acc @ map fst recs)" and "length offs = length recs"
  shows "parse_loop dec scp addr_processor acc n
           (map StrLine (map (\<lambda>(r, off). scp_entry (fst r) path off) (zip recs offs)))
         = Inr (acc @ map (\<lambda>(r, off). (fst r, (path, int off))) (zip recs offs))"
  using assms(1,3,4)
proof (induction recs arbitrary: acc n offs)
  case Nil
  then show ?case by simp
next
  case (Cons r recs)
  from Cons.prems(3) obtain off offs' where offs: "offs = off # offs'"
    and len: "length offs' = length recs" by (cases offs) auto
  have tok: "py_split (py_strip (scp_entry (fst r) path off))
               = [fst r, path @ '':'' @ str_nat off]"
    using entry_tokens [of "fst r" path off] Cons.prems(1) assms(2) by simp
  have new: "\<not> dict_contains acc (fst r)"
    using Cons.prems(2) by (auto simp: dict_contains_def)
  have ds: "dict_set acc (fst r) (path, int off) = acc @ [(fst r, (path, int off))]"
    by (rule dict_set_new [OF new])
  have d: "distinct (map fst (acc @ [(fst r, (path, int off))]) @ map fst recs)"
    using Cons.prems(2) by auto
  have t: "\<forall>r \<in> set recs. token_ok (fst r)" using Cons.prems(1) by simp
  have "parse_loop dec scp addr_processor acc n
          (map StrLine (map (\<lambda>(r, off). scp_entry (fst r) path off) (zip (r # recs) offs)))
        = parse_loop dec scp addr_processor (acc @ [(fst r, (path, int off))]) (n + 1)
            (map StrLine (map (\<lambda>(r, off). scp_entry (fst r) path off) (zip recs offs')))"
    using tok new ds by (simp add: offs decode_line_def addr_processor_entry_Cons Let_def)
  also have "\<dots> = Inr ((acc @ [(fst r, (path, int off))])
                        @ map (\<lambda>(r, off). (fst r, (path, int off))) (zip recs offs'))"
    by (rule Cons.IH [OF t d len])
  finally show ?case by (simp add: offs)
qed

lemma index_entries_keys: "map fst (index_entries io path base recs) = map fst recs"
proof -
  have "map fst (map (\<lambda>(r, off). (fst r, (path, int off))) (zip recs offs)) = map fst recs"
    if "length offs = length recs" for offs :: "nat list"
    using that by (induction recs offs rule: list_induct2') auto
  then show ?thesis by (simp add: index_entries_def record_offsets_length)
qed

lemma index_entries_get:
  assumes "distinct (map fst recs)" and "i < length recs"
  shows "dict_get (index_entries io path base recs) (fst (recs ! i))
           = Some (path, int (record_offsets io base recs ! i))"
proof -
  have d: "distinct (map fst (index_entries io path base recs))"
    using assms(1) by (simp add: index_entries_keys)
  have "index_entries io path base recs ! i
          = (fst (recs ! i), (path, int (record_offsets io base recs ! i)))"
    using assms(2) by (simp add: index_entries_def record_offsets_length)
  moreover have "i < length (index_entries io path base recs)"
    using assms(2) by (simp add: index_entries_def record_offsets_length)
  ultimately have "(fst (recs ! i), (path, int (record_offsets io base recs ! i)))
                     \<in> set (index_entries io path base recs)"
    by (metis nth_mem)
  then show ?thesis using d by (simp add: dict_get_def)
qed

lemma position_symmetric_codec0: "position_symmetric codec0"
proof -
  have tw: "takeWhile (\<lambda>c. c = CHR ''x'') (replicate n CHR ''x'' @ CHR ''.'' # s)
              = replicate n CHR ''x''" for n s
    by (induction n) auto
  show ?thesis
    by (simp add: position_symmetric_def codec0_def tw Let_def)
qed

subsection \<open>Round trip through archive and index\<close>

text \<open>
  C1, as amended. Let the codec be position-symmetric, the keys distinct tokens (not
  empty, no whitespace), the archive and the index addresses plain paths of two
  different files, and the absolute path of the archive free of whitespace and a name
  of the same file. Then writing the records with the index succeeds, the reader built
  from the index maps each key to the absolute path of the archive and the position
  recorded before the sentinel of its record was written, the archive holds at that
  position the sentinel followed by the payload, and reading each key back yields its
  payload.
\<close>

theorem archive_round_trip:
  assumes "position_symmetric io"
      and "distinct (map fst recs)"
      and "\<forall>r \<in> set recs. token_ok (fst r)"
      and "plain_path ark" and "plain_path scp"
      and "\<forall>c \<in> set (abspath w ark). \<not> isspace c"
      and "resolve w (abspath w ark) = resolve w ark"
      and "resolve w scp \<noteq> resolve w ark"
  shows "(\<forall>i < length recs.
            write_then_read io ark scp recs w (fst (recs ! i)) = Inr (snd (recs ! i)))
       \<and> fst (write_archive io ark (Some scp) recs w) = Inr ()
       \<and> files (snd (write_archive io ark (Some scp) recs w)) (resolve w ark)
           = Some (concat (map (frame io) recs))
       \<and> files (snd (write_archive io ark (Some scp) recs w)) (resolve w scp)
           = Some (concat (index_lines io (abspath w ark) 0 recs))
       \<and> fst (ScriptReader_init scp (snd (write_archive io ark (Some scp) recs w)))
           = Inr \<lparr>index_dict = index_entries io (abspath w ark) 0 recs,
                  index_keys = map fst recs\<rparr>
       \<and> (\<forall>i < length recs.
            drop (record_offsets io 0 recs ! i) (concat (map (frame io) recs))
              = write_binary_symbol io @ write_common_mat io (snd (recs ! i))
                  @ concat (map (frame io) (drop (Suc i) recs)))"
proof -
  let ?ra = "resolve w ark" and ?rs = "resolve w scp" and ?path = "abspath w ark"
  let ?A = "concat (map (frame io) recs)"
  let ?S = "concat (index_lines io ?path 0 recs)"
  let ?w1 = "(with_files w ?ra ?rs ?A ?S)\<lparr>closed := closed w @ [File ark ''wb'', File scp ''w'']\<rparr>"
  let ?w2 = "?w1\<lparr>closed := closed ?w1 @ [File scp ''r'']\<rparr>"
  let ?entries = "index_entries io ?path 0 recs"
  let ?self = "\<lparr>index_dict = ?entries, index_keys = map fst recs\<rparr>"
  have ne: "?ra \<noteq> ?rs" using assms(8) by simp
  have wa: "write_archive io ark (Some scp) recs w = (Inr (), ?w1)"
    by (rule write_archive_files [OF assms(4,5) ne])
  have f1: "resolve ?w1 = resolve w" "decode ?w1 = decode w"
    "files ?w1 ?rs = Some ?S" "files ?w1 ?ra = Some ?A"
    using ne by (simp_all add: with_files_def)
  have fo: "fopen (Some scp) ''r'' ?w1 = (Inr (Some (File scp ''r'')), ?w1)"
    using assms(5) f1(3)
    by (simp add: fopen_def plain_path_def path_exists_def open_file_def with_files_def)
  have tl: "text_lines ?S = index_lines io ?path 0 recs"
    by (rule text_lines_index [OF assms(3,6)])
  have it: "iter_lines ?w1 (Some (File scp ''r'')) = Inr (map StrLine (index_lines io ?path 0 recs))"
    using f1(3) tl by (simp add: iter_lines_def with_files_def)
  have d0: "distinct (map fst ([] :: (string \<times> int) dict) @ map fst recs)"
    using assms(2) by simp
  have "parse_loop dec scp addr_processor [] 0
          (map StrLine (map (\<lambda>(r, off). scp_entry (fst r) ?path off)
                          (zip recs (record_offsets io 0 recs))))
        = Inr ([] @ map (\<lambda>(r, off). (fst r, (?path, int off)))
                      (zip recs (record_offsets io 0 recs)))" for dec
    by (rule parse_entries [OF assms(3,6) d0 record_offsets_length])
  then have pl: "parse_loop dec scp addr_processor [] 0
                   (map StrLine (index_lines io ?path 0 recs)) = Inr ?entries" for dec
    by (simp only: append_Nil index_lines_def index_entries_def)
  have fc: "fclose (Some scp) (Some (File scp ''r'')) ?w1 = (None, ?w2)"
    using assms(5) by (simp add: fclose_def plain_path_def)
  have ps: "parse_scps scp addr_processor ?w1 = (Inr ?entries, ?w2)"
    unfolding parse_scps_def fo by (simp add: it pl fc del: parse_loop.simps)
  have ri: "ScriptReader_init scp ?w1 = (Inr ?self, ?w2)"
    by (simp add: ScriptReader_init_def Reader_init_def ps dict_keys_def index_entries_keys)
  have f2: "files (with_files w ?ra ?rs ?A ?S) (resolve (with_files w ?ra ?rs ?A ?S) ?path)
              = Some ?A"
    using assms(7) ne by (simp add: with_files_fields)
  have at: "drop (record_offsets io 0 recs ! i) ?A
              = write_binary_symbol io @ write_common_mat io (snd (recs ! i))
                  @ concat (map (frame io) (drop (Suc i) recs))"
    if "i < length recs" for i
    using archive_at_offset [OF that, of io "[]"] by simp
  have ld: "ScriptReader_load io ?w2 ?self (fst (recs ! i)) = Inr (snd (recs ! i))"
    if i: "i < length recs" for i
  proof -
    have g: "dict_get ?entries (fst (recs ! i)) = Some (?path, int (record_offsets io 0 recs ! i))"
      by (rule index_entries_get [OF assms(2) i])
    have e: "expect_binary io (drop (record_offsets io 0 recs ! i) ?A)
               = Inr (write_common_mat io (snd (recs ! i))
                        @ concat (map (frame io) (drop (Suc i) recs)))"
      using assms(1) at [OF i] by (simp add: position_symmetric_def)
    have r: "read_general_mat io (write_common_mat io (snd (recs ! i))
                                    @ concat (map (frame io) (drop (Suc i) recs)))
               = Inr (snd (recs ! i))"
      using assms(1) by (simp add: position_symmetric_def)
    show ?thesis
      unfolding ScriptReader_load_def by (simp add: g f2 e r)
  qed
  have rt: "write_then_read io ark scp recs w (fst (recs ! i)) = Inr (snd (recs ! i))"
    if i: "i < length recs" for i
  proof -
    have c: "dict_contains ?entries (fst (recs ! i))"
      using i by (simp add: dict_contains_def index_entries_keys)
    show ?thesis
      using ld [OF i] c
      by (simp add: write_then_read_def wa ri Reader_getitem_def getitem_key_def)
  qed
  show ?thesis
    using rt at wa ri f1(3,4) by simp
qed

theorem archive_round_trip_witness:
  "write_then_read codec0 ''a.ark'' ''a.scp'' [(''k1'', ''hi''), (''k2'', ''abc'')] world0 ''k1''
     = Inr ''hi''
   \<and> write_then_read codec0 ''a.ark'' ''a.scp'' [(''k1'', ''hi''), (''k2'', ''abc'')] world0 ''k2''
     = Inr ''abc''
   \<and> files (snd (write_archive codec0 ''a.ark'' (Some ''a.scp'')
                  [(''k1'', ''hi''), (''k2'', ''abc'')] world0)) ''/data/a.ark''
     = Some ark_A
   \<and> fst (ScriptReader_init ''a.scp''
            (snd (write_archive codec0 ''a.ark'' (Some ''a.scp'')
                    [(''k1'', ''hi''), (''k2'', ''abc'')] world0)))
     = Inr \<lparr>index_dict = [(''k1'', (''/data/a.ark'', 3)), (''k2'', (''/data/a.ark'', 13))],
            index_keys = [''k1'', ''k2'']\<rparr>"
proof -
  let ?recs = "[(''k1'', ''hi''), (''k2'', ''abc'')]"
  have a2: "distinct (map fst ?recs)" by simp
  have a3: "\<forall>r \<in> set ?recs. token_ok (fst r)" by code_simp
  have a4: "plain_path ''a.ark''" and a5: "plain_path ''a.scp''" by code_simp+
  have a6: "\<forall>c \<in> set (abspath world0 ''a.ark''). \<not> isspace c" by code_simp
  have a7: "resolve world0 (abspath world0 ''a.ark'') = resolve world0 ''a.ark''" by code_simp
  have a8: "resolve world0 ''a.scp'' \<noteq> resolve world0 ''a.ark''" by code_simp
  note t = archive_round_trip [OF position_symmetric_codec0 a2 a3 a4 a5 a6 a7 a8]
  have k: "?recs ! 0 = (''k1'', ''hi'')" "?recs ! 1 = (''k2'', ''abc'')"
    "(0::nat) < length ?recs" "(1::nat) < length ?recs" by simp_all
  have r: "resolve world0 ''a.ark'' = ''/data/a.ark''" by code_simp
  have f: "concat (map (frame codec0) ?recs) = ark_A" by code_simp
  have e: "index_entries codec0 (abspath world0 ''a.ark'') 0 ?recs
             = [(''k1'', (''/data/a.ark'', 3)), (''k2'', (''/data/a.ark'', 13))]" by code_simp
  have m: "map fst ?recs = [''k1'', ''k2'']" by simp
  from t have t1: "\<forall>i < length ?recs.
      write_then_read codec0 ''a.ark'' ''a.scp'' ?recs world0 (fst (?recs ! i)) = Inr (snd (?recs ! i))"
    by blast
  have r1: "write_then_read codec0 ''a.ark'' ''a.scp'' ?recs world0 ''k1'' = Inr ''hi''"
    using t1 k(1,3) by (metis fst_conv snd_conv)
  have r2: "write_then_read codec0 ''a.ark'' ''a.scp'' ?recs world0 ''k2'' = Inr ''abc''"
    using t1 k(2,4) by (metis fst_conv snd_conv)
  from t have t3: "files (snd (write_archive codec0 ''a.ark'' (Some ''a.scp'') ?recs world0))
                     (resolve world0 ''a.ark'') = Some (concat (map (frame codec0) ?recs))"
    by blast
  from t have t5: "fst (ScriptReader_init ''a.scp''
                      (snd (write_archive codec0 ''a.ark'' (Some ''a.scp'') ?recs world0)))
                     = Inr \<lparr>index_dict = index_entries codec0 (abspath world0 ''a.ark'') 0 ?recs,
                            index_keys = map fst ?recs\<rparr>"
    by blast
  show ?thesis using r1 r2 t3 t5 unfolding r f e m by blast
qed

text \<open>
  The claim as stated fails for a key with whitespace: the index line of the record
  below splits into three tokens, and building the reader raises the format error.
\<close>

theorem archive_round_trip_counterexample:
  "distinct (map fst [(''a b'', ''hi'')])
   \<and> position_symmetric codec0
   \<and> write_then_read codec0 ''a.ark'' ''a.scp'' [(''a b'', ''hi'')] world0 ''a b''
     = Inl (RuntimeError (''Error format in line[1]: a b'' @ [CHR 0x09] @ ''/data/a.ark:4''
                            @ [CHR 0x0A]))"
proof -
  have "write_then_read codec0 ''a.ark'' ''a.scp'' [(''a b'', ''hi'')] world0 ''a b''
          = Inl (RuntimeError (''Error format in line[1]: a b'' @ [CHR 0x09] @ ''/data/a.ark:4''
                                 @ [CHR 0x0A]))"
    by code_simp
  then show ?thesis using position_symmetric_codec0 by simp
qed

end
